theory Spec2Isabelle
  imports Complex_Main
begin

section \<open>The message-passing primitives the programs call\<close>

text \<open>
  The programs are SPMD scripts: every process of the universe runs one of them and
  talks to the others through collective operations of the message-passing library.
  A process is identified by its rank; a communicator is modelled by the list of
  the parent ranks of its members, in the order of their local ranks, so the local
  size is the length of the list and the local rank of a member is its position.
  What a collective returns on one rank depends on what the other ranks pass to
  the matching call, so the arguments of all ranks appear as a list indexed by rank.
\<close>

datatype error = ValueError | ZeroDivisionError | TypeError | CollectiveMismatch

text \<open>Python's \<open>list.index\<close>: the position of the first equal element, ValueError when
  there is none.\<close>

fun list_index :: "'a list \<Rightarrow> 'a \<Rightarrow> error + nat" where
  "list_index [] x = Inl ValueError"
| "list_index (y # ys) x =
     (if y = x then Inr 0
      else (case list_index ys x of Inl e \<Rightarrow> Inl e | Inr i \<Rightarrow> Inr (Suc i)))"

text \<open>\<open>comm.allgather(obj)\<close>: every rank contributes one object and every rank obtains
  the list of all contributions in rank order.\<close>

definition allgather :: "'a list \<Rightarrow> 'a list" where
  "allgather contributions = contributions"

text \<open>\<open>comm.Split(color, key)\<close>: the new communicator of a rank holds the ranks that
  passed the same color, ordered by key, ties in the order of the old ranks (the
  sort is stable). The argument is the (color, key) pair of every rank.\<close>

definition Split :: "(nat \<times> int) list \<Rightarrow> nat \<Rightarrow> nat list" where
  "Split color_key rank =
     sort_key (\<lambda>r. snd (color_key ! r))
       (filter (\<lambda>r. fst (color_key ! r) = fst (color_key ! rank)) [0..<length color_key])"

text \<open>Running a list of fallible computations, the first error wins.\<close>

fun collect :: "(error + 'a) list \<Rightarrow> error + 'a list" where
  "collect [] = Inr []"
| "collect (Inl e # rs) = Inl e"
| "collect (Inr v # rs) = (case collect rs of Inl e \<Rightarrow> Inl e | Inr vs \<Rightarrow> Inr (v # vs))"

section \<open>MPIUtility.partition_by_string\<close>

text \<open>
  \<open>color_index\<close> is what one rank computes between the allgather and the Split:
  \<open>colors.index(color_string)\<close>. \<open>partition_by_string\<close> takes the color string of
  every rank of the communicator (the SPMD view of the argument) and the calling
  rank, and returns the caller's new communicator. The key of a rank is its own
  rank, \<open>intracomm.Get_rank()\<close>.
\<close>

definition color_index :: "string list \<Rightarrow> nat \<Rightarrow> error + nat" where
  "color_index color_strings rank =
     (let colors = allgather color_strings in list_index colors (color_strings ! rank))"

definition partition_by_string :: "string list \<Rightarrow> nat \<Rightarrow> error + nat list" where
  "partition_by_string color_strings rank =
     (let ranks = [0..<length color_strings] in
      case collect (map (color_index color_strings) ranks) of
        Inl e \<Rightarrow> Inl e
      | Inr indices \<Rightarrow> Inr (Split (zip indices (map int ranks)) rank))"

text \<open>\<open>comm.Get_rank()\<close> of a member and \<open>comm.Get_size()\<close>.\<close>

definition Get_rank :: "nat list \<Rightarrow> nat \<Rightarrow> error + nat" where
  "Get_rank comm parent_rank = list_index comm parent_rank"

definition Get_size :: "nat list \<Rightarrow> nat" where
  "Get_size comm = length comm"

section \<open>MPIUtility.intercomm_broadcast\<close>

text \<open>
  The root argument of a broadcast over an intercommunicator is one of the two
  sentinels of the library or a rank of the remote group. The sentinels are negative
  integer constants of the library, different from every rank, whose values depend on
  the implementation the library is built on; the datatype keeps them apart.
  \<open>Rank r\<close> stands for an integer that is neither sentinel. A sending rank always
  passes a sentinel. A receiving rank passes the integer \<open>local_root\<close> it was given,
  which the model reads as \<open>Rank local_root\<close>: that is what the library does with
  every integer that is not negative, and the results below that concern a receiving
  rank are stated for such roots only.
\<close>

datatype root_arg = MPI_ROOT | MPI_PROC_NULL | Rank int

text \<open>
  \<open>intercomm.bcast(value, root)\<close> as one rank sees it; \<open>remote\<close> holds the
  (value, root) pairs the ranks of the remote group pass to the matching call. The
  rank that passes \<open>MPI_ROOT\<close> sends and obtains None, a rank that passes
  \<open>MPI_PROC_NULL\<close> takes no part and obtains None, and a rank that names a remote
  rank obtains the object that rank sends. Naming a rank that is not in the remote
  group, or one that does not send, is a mismatch of the collective.
\<close>

definition bcast_inter :: "('a option \<times> root_arg) list \<Rightarrow> 'a option \<Rightarrow> root_arg \<Rightarrow> error + 'a option" where
  "bcast_inter remote val root_rank =
     (case root_rank of
        MPI_ROOT \<Rightarrow> Inr None
      | MPI_PROC_NULL \<Rightarrow> Inr None
      | Rank r \<Rightarrow>
          if 0 \<le> r \<and> r < int (length remote) \<and> snd (remote ! nat r) = MPI_ROOT
          then Inr (fst (remote ! nat r))
          else Inl CollectiveMismatch)"

text \<open>The branch of \<open>intercomm_broadcast\<close> that chooses the value and the root passed
  to \<open>intercomm.bcast\<close>, and the function itself. Python's None is \<open>None\<close>.\<close>

definition intercomm_broadcast_args :: "'a \<Rightarrow> int \<Rightarrow> int \<Rightarrow> bool \<Rightarrow> 'a option \<times> root_arg" where
  "intercomm_broadcast_args send_value local_rank local_root sending_flag =
     (if sending_flag then
        (if local_rank = local_root then (Some send_value, MPI_ROOT)
         else (None, MPI_PROC_NULL))
      else (None, Rank local_root))"

definition intercomm_broadcast ::
  "('a option \<times> root_arg) list \<Rightarrow> 'a \<Rightarrow> int \<Rightarrow> int \<Rightarrow> bool \<Rightarrow> error + 'a option" where
  "intercomm_broadcast intercomm send_value local_rank local_root sending_flag =
     (case intercomm_broadcast_args send_value local_rank local_root sending_flag of
        (val, root_rank) \<Rightarrow> bcast_inter intercomm val root_rank)"

text \<open>
  One directed broadcast over a channel, on all ranks of both groups: sending rank
  \<open>i\<close> calls \<open>intercomm_broadcast\<close> with its own send value, local rank \<open>i\<close> and
  the sending flag set; receiving rank \<open>j\<close> calls it with the flag cleared. Both
  sides pass the same \<open>local_root\<close>. The result is what every sending rank and
  every receiving rank returns.
\<close>

definition sender_calls :: "'a list \<Rightarrow> int \<Rightarrow> ('a option \<times> root_arg) list" where
  "sender_calls send_values local_root =
     map (\<lambda>i. intercomm_broadcast_args (send_values ! i) (int i) local_root True)
       [0..<length send_values]"

definition receiver_calls :: "'a list \<Rightarrow> int \<Rightarrow> ('a option \<times> root_arg) list" where
  "receiver_calls unused_values local_root =
     map (\<lambda>j. intercomm_broadcast_args (unused_values ! j) (int j) local_root False)
       [0..<length unused_values]"

definition directed_broadcast ::
  "'a list \<Rightarrow> 'a list \<Rightarrow> int \<Rightarrow> (error + 'a option) list \<times> (error + 'a option) list" where
  "directed_broadcast send_values unused_values local_root =
     (map (\<lambda>i. intercomm_broadcast (receiver_calls unused_values local_root)
                 (send_values ! i) (int i) local_root True) [0..<length send_values],
      map (\<lambda>j. intercomm_broadcast (sender_calls send_values local_root)
                 (unused_values ! j) (int j) local_root False) [0..<length unused_values])"

text \<open>
  \<open>comm.bcast(value, root)\<close> over an intracommunicator. \<open>calls\<close> holds, for every
  rank of the communicator, the (value, root) pair it passes, or None when that rank
  never makes the call. Every rank has to make the call and name the same root; each
  of them then obtains the root's value.
\<close>

definition bcast_intra :: "('a \<times> nat) option list \<Rightarrow> nat \<Rightarrow> error + 'a" where
  "bcast_intra calls root_rank =
     (case those calls of
        None \<Rightarrow> Inl CollectiveMismatch
      | Some cs \<Rightarrow>
          if root_rank < length cs \<and> list_all (\<lambda>c. snd c = root_rank) cs
          then Inr (fst (cs ! root_rank))
          else Inl CollectiveMismatch)"

text \<open>
  \<open>MPI.Comm.Compare\<close> on two communicators given by their member lists. The scripts
  only compare a communicator that Split has made with its parent, two different
  objects, so the answer IDENT (the same object) does not arise here.
\<close>

datatype comparison = IDENT | CONGRUENT | SIMILAR | UNEQUAL

definition Compare :: "nat list \<Rightarrow> nat list \<Rightarrow> comparison" where
  "Compare comm1 comm2 =
     (if comm1 = comm2 then CONGRUENT
      else if set comm1 = set comm2 then SIMILAR
      else UNEQUAL)"

text \<open>
  \<open>local_comm.Create_intercomm(local_leader, peer_comm, remote_leader)\<close>. The
  intercommunicator is modelled by its remote group: the communicator of the rank of
  the peer communicator that is named as remote leader (\<open>group_of\<close> gives the
  communicator of every peer rank). The two groups have to be disjoint. Whether the
  remote group takes part is decided at the first collective over the channel.
\<close>

definition Create_intercomm ::
  "(nat \<Rightarrow> error + nat list) \<Rightarrow> nat \<Rightarrow> nat list \<Rightarrow> nat \<Rightarrow> nat \<Rightarrow> error + nat list" where
  "Create_intercomm group_of peer_size local_comm local_leader remote_leader =
     (if local_leader < length local_comm \<and> remote_leader < peer_size then
        (case group_of remote_leader of
           Inl e \<Rightarrow> Inl e
         | Inr remote_comm \<Rightarrow>
             if list_all (\<lambda>q. q \<notin> set local_comm) remote_comm then Inr remote_comm
             else Inl CollectiveMismatch)
      else Inl CollectiveMismatch)"

text \<open>
  \<open>intercomm.Allgather([sendbuf, MPI.DOUBLE], [recvbuf, MPI.DOUBLE])\<close> as one rank
  sees it. \<open>remote\<close> holds the send buffers the ranks of the remote group pass to the
  matching call (None: that rank is not in the call). The receive buffer is cut into
  one block per remote rank (ValueError when its length is no multiple of the remote
  size); every remote rank has to send exactly one block, and the buffer then holds
  the blocks in the order of the remote ranks. The result is the content of the
  receive buffer after the call.
\<close>

definition Allgather_inter :: "'a list option list \<Rightarrow> 'a list \<Rightarrow> nat \<Rightarrow> error + 'a list" where
  "Allgather_inter remote sendbuf recv_length =
     (case those remote of
        None \<Rightarrow> Inl CollectiveMismatch
      | Some sends \<Rightarrow>
          if length sends = 0 then Inl CollectiveMismatch
          else if recv_length mod length sends \<noteq> 0 then Inl ValueError
          else if list_all (\<lambda>s. length s = recv_length div length sends) sends
          then Inr (concat sends)
          else Inl CollectiveMismatch)"

section \<open>solver.py and tracker.py: configuration\<close>

text \<open>The messages printed on rank 0 are left out. Python's \<open>%\<close> on integers is the
  floored remainder, as \<open>mod\<close> on \<open>int\<close>, and raises on a zero divisor.\<close>

definition configure_solver :: "nat \<Rightarrow> nat \<Rightarrow> int \<Rightarrow> error + int" where
  "configure_solver application_rank application_size number_grid_points =
     (let error_count = 0 in
      if number_grid_points \<le> 0 then Inr (error_count + 1)
      else if application_size = 0 then Inl ZeroDivisionError
      else if number_grid_points mod int application_size \<noteq> 0 then Inr (error_count + 1)
      else Inr error_count)"

definition configure_tracker :: "nat \<Rightarrow> nat \<Rightarrow> int \<Rightarrow> error + int" where
  "configure_tracker application_rank application_size number_particles =
     (let error_count = 0 in
      if number_particles \<le> 0 then Inr error_count
      else if application_size = 0 then Inl ZeroDivisionError
      else if number_particles mod int application_size \<noteq> 0 then Inr (error_count + 1)
      else Inr error_count)"

section \<open>The universe and what a process does\<close>

text \<open>
  A launch is the script a rank runs with its parsed command line: \<open>sys.argv[0]\<close>
  and the integer arguments. The delay only feeds \<open>time.sleep\<close> and is left out, as
  is the check of the number of arguments, which exits before any communication.
\<close>

record solver_argv =
  solver_argv0 :: string
  solver_iterations :: int
  solver_grid_points :: int

record tracker_argv =
  tracker_argv0 :: string
  tracker_iterations :: int
  tracker_grid_points :: int
  tracker_particles :: int

datatype launch = Solver solver_argv | Tracker tracker_argv

fun argv0 :: "launch \<Rightarrow> string" where
  "argv0 (Solver argv) = solver_argv0 argv"
| "argv0 (Tracker argv) = tracker_argv0 argv"

text \<open>
  The trace of a process lists its calls into the message-passing layer in program
  order, each with its arguments and with what it returned:
  \<^item> \<open>Partition_by_string c\<close>: \<open>MPIUtility.partition_by_string(world_comm, c)\<close>, the
    allgather and the Split;
  \<^item> \<open>World_bcast v root r\<close>: \<open>world_comm.bcast(v, root)\<close> returned \<open>r\<close>;
  \<^item> \<open>Comm_Compare c\<close>: the comparison of the application communicator with the world;
  \<^item> \<open>Intercomm_created l r\<close>: \<open>application_comm.Create_intercomm(l, world_comm, r)\<close>;
  \<^item> \<open>Intercomm_broadcast v rank root flag r\<close>: \<open>MPIUtility.intercomm_broadcast\<close> with
    these four arguments returned \<open>r\<close>;
  \<^item> \<open>Intercomm_Allgather c s r\<close>: the Allgather of component \<open>c\<close> with send buffer
    \<open>s\<close> left \<open>r\<close> in the receive buffer;
  \<^item> \<open>Finalize\<close>.
\<close>

datatype component = Velocity_X | Velocity_Y | Velocity_Z

datatype event =
    Partition_by_string string
  | World_bcast int nat int
  | Comm_Compare comparison
  | Intercomm_created nat nat
  | Intercomm_broadcast int int int bool "int option"
  | Intercomm_Allgather component "real list" "real list"
  | Finalize

record outcome =
  events :: "event list"
  exit_status :: int

text \<open>The variables of a script. \<open>coupled_flag\<close> and \<open>intercomm\<close> hold False and the
  empty group until the script assigns them.\<close>

record state =
  application_comm :: "nat list"
  application_rank :: nat
  application_size :: nat
  startup_error_count :: int
  coupled_flag :: bool
  intercomm :: "nat list"
  trace :: "event list"

text \<open>
  A script runs from one collective call to the next. A block of it ends with
  \<open>sys.exit\<close> (\<open>Exit\<close>), stands before a collective call with the given arguments
  (\<open>Call\<close>), or goes on to the iteration loop without a call (\<open>Proceed\<close>).
\<close>

datatype 'c step = Exit outcome | Call state 'c | Proceed state

section \<open>solver.py\<close>

text \<open>
  From the start of the script to the call \<open>world_comm.bcast(startup_error_count, 0)\<close>:
  the partition by \<open>sys.argv[0]\<close> and the configuration check. \<open>world\<close> is the
  universe, \<open>world_rank\<close> the rank of this process in it.
\<close>

definition solver_startup :: "launch list \<Rightarrow> nat \<Rightarrow> solver_argv \<Rightarrow> error + (int \<times> nat) step" where
  "solver_startup world world_rank argv =
     (case partition_by_string (map argv0 world) world_rank of
        Inl e \<Rightarrow> Inl e
      | Inr comm \<Rightarrow>
          (case Get_rank comm world_rank of
             Inl e \<Rightarrow> Inl e
           | Inr rank \<Rightarrow>
               (case configure_solver rank (Get_size comm) (solver_grid_points argv) of
                  Inl e \<Rightarrow> Inl e
                | Inr count \<Rightarrow>
                    Inr (Call
                      \<lparr>application_comm = comm, application_rank = rank,
                       application_size = Get_size comm, startup_error_count = count,
                       coupled_flag = False, intercomm = [],
                       trace = [Partition_by_string (solver_argv0 argv)]\<rparr>
                      (count, 0)))))"

text \<open>
  From the return of the world broadcast (its result is dropped) to the call of
  \<open>intercomm_broadcast\<close>: exit on the solver's own error count, the comparison with the
  world, and for a coupled run the intercommunicator, whose remote leader is the world
  rank \<open>application_size\<close>. The solver passes send value 0, root 0 and a cleared
  sending flag. An uncoupled solver goes on to the loop.
\<close>

definition solver_couple :: "launch list \<Rightarrow> state \<Rightarrow> error + (int \<times> int \<times> int \<times> bool) step" where
  "solver_couple world st =
     (if startup_error_count st > 0 then Inr (Exit \<lparr>events = trace st, exit_status = 1\<rparr>)
      else
        (let cmp = Compare (application_comm st) [0..<length world];
             st1 = st\<lparr>coupled_flag := (cmp = UNEQUAL), trace := trace st @ [Comm_Compare cmp]\<rparr>
         in
           if coupled_flag st1 then
             (case Create_intercomm (partition_by_string (map argv0 world)) (length world)
                     (application_comm st1) 0 (application_size st1) of
                Inl e \<Rightarrow> Inl e
              | Inr ic \<Rightarrow>
                  Inr (Call
                    (st1\<lparr>intercomm := ic,
                         trace := trace st1 @ [Intercomm_created 0 (application_size st1)]\<rparr>)
                    (0, int (application_rank st1), 0, False)))
           else Inr (Proceed st1)))"

text \<open>After \<open>intercomm_broadcast\<close> has returned the tracker's count: exit when it is
  positive. The comparison of None with 0 cannot arise on a receiving rank.\<close>

definition solver_confirm :: "state \<Rightarrow> int option \<Rightarrow> error + unit step" where
  "solver_confirm st returned =
     (case returned of
        None \<Rightarrow> Inl TypeError
      | Some count \<Rightarrow>
          (let st1 = st\<lparr>startup_error_count := count\<rparr> in
           if startup_error_count st1 > 0
           then Inr (Exit \<lparr>events = trace st1, exit_status = 1\<rparr>)
           else Inr (Proceed st1)))"

text \<open>The buffers of a script: the three velocity components and the empty array.
  \<open>np.ones(n) * application_rank\<close> is \<open>n\<close> copies of the rank, ValueError for a
  negative \<open>n\<close>; \<open>//\<close> is the floored quotient and raises on a zero divisor.\<close>

record buffers =
  velocity_x :: "real list"
  velocity_y :: "real list"
  velocity_z :: "real list"
  empty_data :: "real list"

fun velocity :: "buffers \<Rightarrow> component \<Rightarrow> real list" where
  "velocity b Velocity_X = velocity_x b"
| "velocity b Velocity_Y = velocity_y b"
| "velocity b Velocity_Z = velocity_z b"

definition solver_buffers :: "state \<Rightarrow> solver_argv \<Rightarrow> error + buffers" where
  "solver_buffers st argv =
     (if application_size st = 0 then Inl ZeroDivisionError
      else
        (let grid_per_rank = solver_grid_points argv div int (application_size st) in
         if grid_per_rank < 0 then Inl ValueError
         else Inr
           \<lparr>velocity_x = replicate (nat grid_per_rank) (real (application_rank st)),
            velocity_y = replicate (nat grid_per_rank) (real (application_rank st)),
            velocity_z = replicate (nat grid_per_rank) (real (application_rank st)),
            empty_data = []\<rparr>))"

text \<open>A \<open>for\<close> loop over a range: the events of the iterations in order, the first error
  ends it.\<close>

fun iterate :: "(nat \<Rightarrow> error + event list) \<Rightarrow> nat list \<Rightarrow> error + event list" where
  "iterate body [] = Inr []"
| "iterate body (i # rest) =
     (case body i of
        Inl e \<Rightarrow> Inl e
      | Inr evs \<Rightarrow> (case iterate body rest of Inl e \<Rightarrow> Inl e | Inr later \<Rightarrow> Inr (evs @ later)))"

text \<open>One iteration of the solver: for a coupled run the three transfers, X, then Y,
  then Z, each sending the local slice and receiving into the empty array. \<open>remote\<close>
  gives the send buffers of the remote ranks for a component in this iteration.\<close>

definition solver_iteration :: "(component \<Rightarrow> real list option list) \<Rightarrow> state \<Rightarrow> buffers \<Rightarrow> error + event list" where
  "solver_iteration remote st b =
     (if coupled_flag st then
        (case Allgather_inter (remote Velocity_X) (velocity_x b) (length (empty_data b)) of
           Inl e \<Rightarrow> Inl e
         | Inr rx \<Rightarrow>
        (case Allgather_inter (remote Velocity_Y) (velocity_y b) (length (empty_data b)) of
           Inl e \<Rightarrow> Inl e
         | Inr ry \<Rightarrow>
        (case Allgather_inter (remote Velocity_Z) (velocity_z b) (length (empty_data b)) of
           Inl e \<Rightarrow> Inl e
         | Inr rz \<Rightarrow>
             Inr [Intercomm_Allgather Velocity_X (velocity_x b) rx,
                  Intercomm_Allgather Velocity_Y (velocity_y b) ry,
                  Intercomm_Allgather Velocity_Z (velocity_z b) rz])))
      else Inr [])"

definition solver_loop :: "(nat \<Rightarrow> component \<Rightarrow> real list option list) \<Rightarrow> state \<Rightarrow> solver_argv \<Rightarrow> error + outcome" where
  "solver_loop remote st argv =
     (case solver_buffers st argv of
        Inl e \<Rightarrow> Inl e
      | Inr b \<Rightarrow>
          (case iterate (\<lambda>iteration_count. solver_iteration (remote iteration_count) st b)
                  [0..<nat (solver_iterations argv)] of
             Inl e \<Rightarrow> Inl e
           | Inr evs \<Rightarrow> Inr \<lparr>events = trace st @ evs @ [Finalize], exit_status = 0\<rparr>))"

section \<open>tracker.py\<close>

text \<open>
  From the start of the script to the call \<open>world_comm.bcast(0, 0)\<close>: the partition,
  the comparison with the world, and the exit with status 1 of a tracker that is
  alone in the universe.
\<close>

definition tracker_startup :: "launch list \<Rightarrow> nat \<Rightarrow> tracker_argv \<Rightarrow> error + (int \<times> nat) step" where
  "tracker_startup world world_rank argv =
     (case partition_by_string (map argv0 world) world_rank of
        Inl e \<Rightarrow> Inl e
      | Inr comm \<Rightarrow>
          (case Get_rank comm world_rank of
             Inl e \<Rightarrow> Inl e
           | Inr rank \<Rightarrow>
               (let cmp = Compare comm [0..<length world];
                    st = \<lparr>application_comm = comm, application_rank = rank,
                          application_size = Get_size comm, startup_error_count = 0,
                          coupled_flag = (cmp = UNEQUAL), intercomm = [],
                          trace = [Partition_by_string (tracker_argv0 argv), Comm_Compare cmp]\<rparr>
                in
                  if \<not> coupled_flag st then Inr (Exit \<lparr>events = trace st, exit_status = 1\<rparr>)
                  else Inr (Call st (0, 0)))))"

text \<open>
  From the return of the world broadcast to the call of \<open>intercomm_broadcast\<close>: exit
  on the count received, the tracker's own configuration check, and the
  intercommunicator, whose remote leader is world rank 0. The tracker passes its own
  count, root 0 and a set sending flag.
\<close>

definition tracker_configure :: "launch list \<Rightarrow> state \<Rightarrow> tracker_argv \<Rightarrow> int \<Rightarrow> error + (int \<times> int \<times> int \<times> bool) step" where
  "tracker_configure world st argv returned =
     (let st1 = st\<lparr>startup_error_count := returned\<rparr> in
      if startup_error_count st1 > 0 then Inr (Exit \<lparr>events = trace st1, exit_status = 1\<rparr>)
      else
        (case configure_tracker (application_rank st1) (application_size st1)
                (tracker_particles argv) of
           Inl e \<Rightarrow> Inl e
         | Inr count \<Rightarrow>
             (let st2 = st1\<lparr>startup_error_count := count\<rparr> in
              case Create_intercomm (partition_by_string (map argv0 world)) (length world)
                     (application_comm st2) 0 0 of
                Inl e \<Rightarrow> Inl e
              | Inr ic \<Rightarrow>
                  Inr (Call
                    (st2\<lparr>intercomm := ic, trace := trace st2 @ [Intercomm_created 0 0]\<rparr>)
                    (startup_error_count st2, int (application_rank st2), 0, True)))))"

text \<open>After \<open>intercomm_broadcast\<close> has returned (its result is dropped): exit on the
  tracker's own count.\<close>

definition tracker_confirm :: "state \<Rightarrow> error + unit step" where
  "tracker_confirm st =
     (if startup_error_count st > 0 then Inr (Exit \<lparr>events = trace st, exit_status = 1\<rparr>)
      else Inr (Proceed st))"

text \<open>\<open>np.empty(number_grid_points)\<close>: an array of that length whose content is not
  set, ValueError for a negative length. Only the length is used before the first
  transfer overwrites the array, so the model keeps the length.\<close>

definition tracker_buffer_length :: "tracker_argv \<Rightarrow> error + nat" where
  "tracker_buffer_length argv =
     (if tracker_grid_points argv < 0 then Inl ValueError
      else Inr (nat (tracker_grid_points argv)))"

text \<open>One iteration of the tracker: the three transfers, each sending the empty array
  and receiving a whole component.\<close>

definition tracker_iteration :: "(component \<Rightarrow> real list option list) \<Rightarrow> nat \<Rightarrow> error + event list" where
  "tracker_iteration remote n =
     (case Allgather_inter (remote Velocity_X) [] n of
        Inl e \<Rightarrow> Inl e
      | Inr vx \<Rightarrow>
     (case Allgather_inter (remote Velocity_Y) [] n of
        Inl e \<Rightarrow> Inl e
      | Inr vy \<Rightarrow>
     (case Allgather_inter (remote Velocity_Z) [] n of
        Inl e \<Rightarrow> Inl e
      | Inr vz \<Rightarrow>
          Inr [Intercomm_Allgather Velocity_X [] vx,
               Intercomm_Allgather Velocity_Y [] vy,
               Intercomm_Allgather Velocity_Z [] vz])))"

definition tracker_loop :: "(nat \<Rightarrow> component \<Rightarrow> real list option list) \<Rightarrow> state \<Rightarrow> tracker_argv \<Rightarrow> error + outcome" where
  "tracker_loop remote st argv =
     (case tracker_buffer_length argv of
        Inl e \<Rightarrow> Inl e
      | Inr n \<Rightarrow>
          (case iterate (\<lambda>iteration_count. tracker_iteration (remote iteration_count) n)
                  [0..<nat (tracker_iterations argv)] of
             Inl e \<Rightarrow> Inl e
           | Inr evs \<Rightarrow> Inr \<lparr>events = trace st @ evs @ [Finalize], exit_status = 0\<rparr>))"

section \<open>Running a universe\<close>

text \<open>
  The blocks of the scripts are joined at the collectives: what a call returns on one
  rank is computed from the arguments the other ranks pass to the matching call, and
  the call is appended to the trace with what it returned.

  \<open>startup\<close> runs rank \<open>q\<close> up to the world broadcast, \<open>handshake\<close> up to the directed
  broadcast over the channel, \<open>ready\<close> up to the iteration loop.
\<close>

definition startup :: "launch list \<Rightarrow> nat \<Rightarrow> error + (int \<times> nat) step" where
  "startup world q =
     (case world ! q of
        Solver argv \<Rightarrow> solver_startup world q argv
      | Tracker argv \<Rightarrow> tracker_startup world q argv)"

definition world_calls :: "launch list \<Rightarrow> (int \<times> nat) option list" where
  "world_calls world =
     map (\<lambda>q. case startup world q of Inr (Call st c) \<Rightarrow> Some c | _ \<Rightarrow> None) [0..<length world]"

definition handshake :: "launch list \<Rightarrow> nat \<Rightarrow> error + (int \<times> int \<times> int \<times> bool) step" where
  "handshake world q =
     (case startup world q of
        Inl e \<Rightarrow> Inl e
      | Inr (Exit out) \<Rightarrow> Inr (Exit out)
      | Inr (Proceed st) \<Rightarrow> Inr (Proceed st)
      | Inr (Call st (v, root_rank)) \<Rightarrow>
          (case bcast_intra (world_calls world) root_rank of
             Inl e \<Rightarrow> Inl e
           | Inr returned \<Rightarrow>
               (let st1 = st\<lparr>trace := trace st @ [World_bcast v root_rank returned]\<rparr> in
                case world ! q of
                  Solver argv \<Rightarrow> solver_couple world st1
                | Tracker argv \<Rightarrow> tracker_configure world st1 argv returned)))"

definition handshake_calls :: "launch list \<Rightarrow> nat list \<Rightarrow> (int option \<times> root_arg) option list" where
  "handshake_calls world members =
     map (\<lambda>q. case handshake world q of
                Inr (Call st (v, local_rank, local_root, sending_flag)) \<Rightarrow>
                  Some (intercomm_broadcast_args v local_rank local_root sending_flag)
              | _ \<Rightarrow> None) members"

definition ready :: "launch list \<Rightarrow> nat \<Rightarrow> error + unit step" where
  "ready world q =
     (case handshake world q of
        Inl e \<Rightarrow> Inl e
      | Inr (Exit out) \<Rightarrow> Inr (Exit out)
      | Inr (Proceed st) \<Rightarrow> Inr (Proceed st)
      | Inr (Call st (v, local_rank, local_root, sending_flag)) \<Rightarrow>
          (case those (handshake_calls world (intercomm st)) of
             None \<Rightarrow> Inl CollectiveMismatch
           | Some remote \<Rightarrow>
               (case intercomm_broadcast remote v local_rank local_root sending_flag of
                  Inl e \<Rightarrow> Inl e
                | Inr returned \<Rightarrow>
                    (let st1 = st\<lparr>trace := trace st @
                           [Intercomm_broadcast v local_rank local_root sending_flag returned]\<rparr>
                     in
                       case world ! q of
                         Solver argv \<Rightarrow> solver_confirm st1 returned
                       | Tracker argv \<Rightarrow> tracker_confirm st1))))"

text \<open>The send buffer of rank \<open>q\<close> in the transfer of a component in an iteration, None
  when \<open>q\<close> does not make that call.\<close>

definition loop_send :: "launch list \<Rightarrow> nat \<Rightarrow> nat \<Rightarrow> component \<Rightarrow> real list option" where
  "loop_send world q iteration_count c =
     (case ready world q of
        Inr (Proceed st) \<Rightarrow>
          (case world ! q of
             Solver argv \<Rightarrow>
               (if coupled_flag st \<and> int iteration_count < solver_iterations argv then
                  (case solver_buffers st argv of Inl e \<Rightarrow> None | Inr b \<Rightarrow> Some (velocity b c))
                else None)
           | Tracker argv \<Rightarrow>
               (if int iteration_count < tracker_iterations argv then
                  (case tracker_buffer_length argv of Inl e \<Rightarrow> None | Inr n \<Rightarrow> Some [])
                else None))
      | _ \<Rightarrow> None)"

definition remote_sends :: "launch list \<Rightarrow> state \<Rightarrow> nat \<Rightarrow> component \<Rightarrow> real list option list" where
  "remote_sends world st iteration_count c =
     map (\<lambda>q. loop_send world q iteration_count c) (intercomm st)"

text \<open>The whole run of rank \<open>q\<close>: its trace and exit status, or the error that ends it
  (a mismatch of a collective stands for a process that hangs).\<close>

definition run :: "launch list \<Rightarrow> nat \<Rightarrow> error + outcome" where
  "run world q =
     (case ready world q of
        Inl e \<Rightarrow> Inl e
      | Inr (Exit out) \<Rightarrow> Inr out
      | Inr (Call st c) \<Rightarrow> Inl CollectiveMismatch
      | Inr (Proceed st) \<Rightarrow>
          (case world ! q of
             Solver argv \<Rightarrow> solver_loop (remote_sends world st) st argv
           | Tracker argv \<Rightarrow> tracker_loop (remote_sends world st) st argv))"

text \<open>A coupled launch: the solver on the first ranks of the universe, the tracker on
  the ranks that follow, each script with one command line.\<close>

definition coupled_universe :: "nat \<Rightarrow> solver_argv \<Rightarrow> nat \<Rightarrow> tracker_argv \<Rightarrow> launch list" where
  "coupled_universe solvers sargv trackers targv =
     replicate solvers (Solver sargv) @ replicate trackers (Tracker targv)"

section \<open>Facts about the primitives and the partition\<close>

lemma list_index_Inr:
  "list_index xs x = Inr i \<Longrightarrow> i < length xs \<and> xs ! i = x \<and> (\<forall>j<i. xs ! j \<noteq> x)"
proof (induction xs arbitrary: i)
  case Nil
  then show ?case by simp
next
  case (Cons y ys)
  show ?case
  proof (cases "y = x")
    case True
    with Cons.prems show ?thesis by simp
  next
    case False
    with Cons.prems obtain k where k: "list_index ys x = Inr k" "i = Suc k"
      by (auto split: sum.splits)
    from Cons.IH [OF k(1)] False k(2) show ?thesis
      by (auto simp: nth_Cons split: nat.splits)
  qed
qed

lemma list_index_member:
  "x \<in> set xs \<Longrightarrow> \<exists>i. list_index xs x = Inr i"
  by (induction xs) auto

lemma list_index_first:
  "i < length xs \<Longrightarrow> xs ! i = x \<Longrightarrow> \<forall>j<i. xs ! j \<noteq> x \<Longrightarrow> list_index xs x = Inr i"
proof -
  assume a: "i < length xs" "xs ! i = x" "\<forall>j<i. xs ! j \<noteq> x"
  then have "x \<in> set xs" by auto
  then obtain k where k: "list_index xs x = Inr k" using list_index_member by fastforce
  from list_index_Inr [OF k] a have "k = i"
    by (metis linorder_neqE_nat)
  with k show ?thesis by simp
qed

lemma color_index_Inr:
  assumes "rank < length cs"
  shows "\<exists>g. color_index cs rank = Inr g"
  using assms list_index_member [of "cs ! rank" cs]
  by (simp add: color_index_def allgather_def)

lemma color_index_same:
  assumes "r < length cs" "q < length cs"
  shows "color_index cs q = color_index cs r \<longleftrightarrow> cs ! q = cs ! r"
proof
  assume e: "color_index cs q = color_index cs r"
  obtain g where g: "color_index cs r = Inr g" using color_index_Inr [OF assms(1)] by blast
  with e have "color_index cs q = Inr g" by simp
  with g show "cs ! q = cs ! r"
    using list_index_Inr [of cs "cs ! q" g] list_index_Inr [of cs "cs ! r" g]
    by (simp add: color_index_def allgather_def)
next
  assume "cs ! q = cs ! r"
  then show "color_index cs q = color_index cs r"
    by (simp add: color_index_def allgather_def)
qed

lemma collect_map:
  "(\<And>x. x \<in> set xs \<Longrightarrow> \<exists>v. f x = Inr v) \<Longrightarrow> collect (map f xs) = Inr (map (\<lambda>x. projr (f x)) xs)"
proof (induction xs)
  case Nil
  then show ?case by simp
next
  case (Cons a xs)
  then obtain v where "f a = Inr v" by auto
  moreover have "collect (map f xs) = Inr (map (\<lambda>x. projr (f x)) xs)"
    using Cons by simp
  ultimately show ?case by simp
qed

lemma Split_rank_key:
  assumes "length idx = n" "rank < n"
  shows "Split (zip idx (map int [0..<n])) rank = filter (\<lambda>r. idx ! r = idx ! rank) [0..<n]"
proof -
  let ?ck = "zip idx (map int [0..<n])"
  have len: "length ?ck = n" using assms by simp
  have f: "filter (\<lambda>r. fst (?ck ! r) = fst (?ck ! rank)) [0..<n] = filter (\<lambda>r. idx ! r = idx ! rank) [0..<n]"
    using assms by (intro filter_cong) auto
  have m: "map (\<lambda>r. snd (?ck ! r)) (filter (\<lambda>r. idx ! r = idx ! rank) [0..<n])
        = map int (filter (\<lambda>r. idx ! r = idx ! rank) [0..<n])"
    using assms by (intro map_cong) auto
  have "sorted (map int (filter (\<lambda>r. idx ! r = idx ! rank) [0..<n]))"
    by (simp add: sorted_map sorted_wrt_filter)
  then have "sorted (map (\<lambda>r. snd (?ck ! r)) (filter (\<lambda>r. idx ! r = idx ! rank) [0..<n]))"
    unfolding m .
  then have "sort_key (\<lambda>r. snd (?ck ! r)) (filter (\<lambda>r. idx ! r = idx ! rank) [0..<n])
        = filter (\<lambda>r. idx ! r = idx ! rank) [0..<n]"
    by (rule sort_key_id_if_sorted)
  then show ?thesis
    unfolding Split_def len f by simp
qed

lemma partition_by_string_filter:
  assumes "rank < length cs"
  shows "partition_by_string cs rank = Inr (filter (\<lambda>q. cs ! q = cs ! rank) [0..<length cs])"
proof -
  let ?n = "length cs"
  let ?idx = "map (\<lambda>x. projr (color_index cs x)) [0..<?n]"
  have c: "collect (map (color_index cs) [0..<?n]) = Inr ?idx"
    by (rule collect_map) (simp add: color_index_Inr)
  have s: "Split (zip ?idx (map int [0..<?n])) rank = filter (\<lambda>r. ?idx ! r = ?idx ! rank) [0..<?n]"
    by (rule Split_rank_key) (use assms in simp_all)
  have "filter (\<lambda>r. ?idx ! r = ?idx ! rank) [0..<?n] = filter (\<lambda>q. cs ! q = cs ! rank) [0..<?n]"
  proof (intro filter_cong refl)
    fix q assume "q \<in> set [0..<?n]"
    then have q: "q < ?n" by simp
    obtain a where a: "color_index cs q = Inr a" using color_index_Inr [OF q] by blast
    obtain b where b: "color_index cs rank = Inr b" using color_index_Inr [OF assms] by blast
    have "(?idx ! q = ?idx ! rank) = (a = b)" using q assms a b by simp
    also have "\<dots> = (color_index cs q = color_index cs rank)" using a b by simp
    also have "\<dots> = (cs ! q = cs ! rank)" using color_index_same [OF assms q] .
    finally show "(?idx ! q = ?idx ! rank) = (cs ! q = cs ! rank)" .
  qed
  with c s show ?thesis by (simp add: partition_by_string_def Let_def)
qed


lemma partition_member:
  assumes "rank < length cs"
  shows "rank \<in> set (filter (\<lambda>q. cs ! q = cs ! rank) [0..<length cs])"
  using assms by simp

lemma Get_rank_position:
  assumes "sorted_wrt (<) members" "i < length members"
  shows "Get_rank members (members ! i) = Inr i"
  unfolding Get_rank_def
proof (rule list_index_first)
  show "i < length members" by fact
  show "members ! i = members ! i" by simp
  show "\<forall>j<i. members ! j \<noteq> members ! i"
  proof (intro allI impI)
    fix j assume "j < i"
    with assms have "members ! j < members ! i"
      by (simp add: sorted_wrt_nth_less)
    then show "members ! j \<noteq> members ! i" by simp
  qed
qed

section \<open>The group id of partition_by_string\<close>

text \<open>
  Claim C1. For every universe and every assignment of labels, the group id a process
  computes in \<open>partition_by_string\<close> is the position of the first process, in
  ascending rank order, whose label equals its own: the label at that position is the
  process's label and no earlier position carries it. A process obtains the same group
  id exactly when it carries the same label, and the Split groups the processes by
  this id.
\<close>

theorem group_id_is_first_occurrence:
  assumes "rank < length color_strings"
  shows "\<exists>g. color_index color_strings rank = Inr g
           \<and> g < length color_strings
           \<and> color_strings ! g = color_strings ! rank
           \<and> (\<forall>j<g. color_strings ! j \<noteq> color_strings ! rank)
           \<and> (\<forall>q<length color_strings.
                 (color_index color_strings q = Inr g) = (color_strings ! q = color_strings ! rank))
           \<and> partition_by_string color_strings rank =
               Inr (filter (\<lambda>q. color_index color_strings q = Inr g) [0..<length color_strings])"
proof -
  obtain g where g: "color_index color_strings rank = Inr g"
    using color_index_Inr [OF assms] by blast
  then have li: "list_index color_strings (color_strings ! rank) = Inr g"
    by (simp add: color_index_def allgather_def)
  note first = list_index_Inr [OF li]
  have same: "\<forall>q<length color_strings.
      (color_index color_strings q = Inr g) = (color_strings ! q = color_strings ! rank)"
    using color_index_same [OF assms] g by simp
  have "filter (\<lambda>q. color_strings ! q = color_strings ! rank) [0..<length color_strings]
        = filter (\<lambda>q. color_index color_strings q = Inr g) [0..<length color_strings]"
    by (rule filter_cong) (use same in auto)
  then have "partition_by_string color_strings rank =
      Inr (filter (\<lambda>q. color_index color_strings q = Inr g) [0..<length color_strings])"
    using partition_by_string_filter [OF assms] by simp
  with g first same show ?thesis by blast
qed

theorem group_id_is_first_occurrence_witness:
  "color_index [''S'', ''T'', ''S'', ''T''] 3 = Inr 1
   \<and> color_index [''S'', ''T'', ''S'', ''T''] 1 = Inr 1
   \<and> color_index [''S'', ''T'', ''S'', ''T''] 2 = Inr 0
   \<and> partition_by_string [''S'', ''T'', ''S'', ''T''] 3 = Inr [1, 3]"
proof -
  have len: "3 < length [''S'', ''T'', ''S'', ''T'']" by simp
  obtain g where g: "color_index [''S'', ''T'', ''S'', ''T''] 3 = Inr g"
    and p: "partition_by_string [''S'', ''T'', ''S'', ''T''] 3 =
       Inr (filter (\<lambda>q. color_index [''S'', ''T'', ''S'', ''T''] q = Inr g)
              [0..<length [''S'', ''T'', ''S'', ''T'']])"
    using group_id_is_first_occurrence [OF len] by blast
  have c3: "color_index [''S'', ''T'', ''S'', ''T''] 3 = Inr 1" by code_simp
  have c1: "color_index [''S'', ''T'', ''S'', ''T''] 1 = Inr 1" by code_simp
  have c2: "color_index [''S'', ''T'', ''S'', ''T''] 2 = Inr 0" by code_simp
  have f: "filter (\<lambda>q. color_index [''S'', ''T'', ''S'', ''T''] q = Inr 1)
              [0..<length [''S'', ''T'', ''S'', ''T'']] = [1, 3]" by code_simp
  from g c3 have "g = 1" by simp
  with p f have "partition_by_string [''S'', ''T'', ''S'', ''T''] 3 = Inr [1, 3]" by simp
  with c3 c1 c2 show ?thesis by simp
qed

lemma partition_groups_equal_or_disjoint:
  assumes "rank < length cs" "q < length cs"
  shows "filter (\<lambda>p. cs ! p = cs ! q) [0..<length cs] = filter (\<lambda>p. cs ! p = cs ! rank) [0..<length cs]
         \<or> set (filter (\<lambda>p. cs ! p = cs ! q) [0..<length cs])
             \<inter> set (filter (\<lambda>p. cs ! p = cs ! rank) [0..<length cs]) = {}"
proof (cases "cs ! q = cs ! rank")
  case True
  then show ?thesis by simp
next
  case False
  then show ?thesis by auto
qed

lemma sender_calls_root:
  assumes "0 \<le> local_root" "nat local_root < length send_values"
  shows "sender_calls send_values local_root =
           (replicate (length send_values) (None, MPI_PROC_NULL))
             [nat local_root := (Some (send_values ! nat local_root), MPI_ROOT)]"
proof (rule nth_equalityI)
  show "length (sender_calls send_values local_root) =
        length ((replicate (length send_values) (None, MPI_PROC_NULL))
             [nat local_root := (Some (send_values ! nat local_root), MPI_ROOT)])"
    by (simp add: sender_calls_def)
next
  fix i assume "i < length (sender_calls send_values local_root)"
  then have i: "i < length send_values" by (simp add: sender_calls_def)
  show "sender_calls send_values local_root ! i =
        (replicate (length send_values) (None, MPI_PROC_NULL))
             [nat local_root := (Some (send_values ! nat local_root), MPI_ROOT)] ! i"
  proof (cases "int i = local_root")
    case True
    then have "i = nat local_root" by simp
    with i True show ?thesis
      by (simp add: sender_calls_def intercomm_broadcast_args_def)
  next
    case False
    then have "i \<noteq> nat local_root" using assms by auto
    with i False show ?thesis
      by (simp add: sender_calls_def intercomm_broadcast_args_def)
  qed
qed

lemma sender_calls_no_root:
  assumes "\<not> (0 \<le> local_root \<and> local_root < int (length send_values))"
  shows "sender_calls send_values local_root = replicate (length send_values) (None, MPI_PROC_NULL)"
proof (rule nth_equalityI)
  show "length (sender_calls send_values local_root) =
        length (replicate (length send_values) (None :: 'a option, MPI_PROC_NULL))"
    by (simp add: sender_calls_def)
next
  fix i assume "i < length (sender_calls send_values local_root)"
  then have i: "i < length send_values" by (simp add: sender_calls_def)
  with assms have "int i \<noteq> local_root" by auto
  with i show "sender_calls send_values local_root ! i =
        replicate (length send_values) (None, MPI_PROC_NULL) ! i"
    by (simp add: sender_calls_def intercomm_broadcast_args_def)
qed

lemma map_const_replicate:
  "(\<And>x. x \<in> set xs \<Longrightarrow> f x = v) \<Longrightarrow> map f xs = replicate (length xs) v"
  by (induction xs) auto

section \<open>The partition of the universe\<close>

text \<open>
  Claim C9, as amended. For every universe and label assignment the partition is a true
  partition: the communicator a process obtains contains the process and only ranks
  of the universe, the communicators of two processes are equal or disjoint, and the
  members stand in strictly ascending global-rank order, the member at position \<open>i\<close>
  having local rank \<open>i\<close>. For the universe of size 4 with labels S, S, T, T the S-group
  is ranks 0 and 1 with local ranks 0 and 1, the T-group is ranks 2 and 3 with local
  ranks 0 and 1, and their group ids, the Split colors, are 0 and 2: the id of a group
  is the global rank of its first member.
\<close>

theorem partition_is_true_partition:
  "(rank < length color_strings \<longrightarrow>
      (\<exists>members. partition_by_string color_strings rank = Inr members
         \<and> rank \<in> set members
         \<and> set members \<subseteq> {..<length color_strings}
         \<and> sorted_wrt (<) members
         \<and> (\<forall>i<length members. Get_rank members (members ! i) = Inr i)
         \<and> (\<forall>q<length color_strings. \<exists>other. partition_by_string color_strings q = Inr other
               \<and> (other = members \<or> set other \<inter> set members = {}))))
   \<and> map (partition_by_string [''S'', ''S'', ''T'', ''T'']) [0, 1, 2, 3]
        = [Inr [0, 1], Inr [0, 1], Inr [2, 3], Inr [2, 3]]
   \<and> map (Get_rank [0, 1]) [0, 1] = [Inr 0, Inr 1]
   \<and> map (Get_rank [2, 3]) [2, 3] = [Inr 0, Inr 1]
   \<and> map (color_index [''S'', ''S'', ''T'', ''T'']) [0, 1, 2, 3] = [Inr 0, Inr 0, Inr 2, Inr 2]"
proof (intro conjI impI)
  assume r: "rank < length color_strings"
  let ?g = "\<lambda>r. filter (\<lambda>p. color_strings ! p = color_strings ! r) [0..<length color_strings]"
  have p: "partition_by_string color_strings rank = Inr (?g rank)"
    by (rule partition_by_string_filter [OF r])
  have s: "sorted_wrt (<) (?g rank)"
    by (rule sorted_wrt_filter) (simp add: sorted_wrt_upt)
  have pos: "\<forall>i<length (?g rank). Get_rank (?g rank) (?g rank ! i) = Inr i"
    using Get_rank_position [OF s] by blast
  have others: "\<forall>q<length color_strings. \<exists>other. partition_by_string color_strings q = Inr other
               \<and> (other = ?g rank \<or> set other \<inter> set (?g rank) = {})"
  proof (intro allI impI)
    fix q assume q: "q < length color_strings"
    have "partition_by_string color_strings q = Inr (?g q)"
      by (rule partition_by_string_filter [OF q])
    with partition_groups_equal_or_disjoint [OF r q] 
    show "\<exists>other. partition_by_string color_strings q = Inr other
               \<and> (other = ?g rank \<or> set other \<inter> set (?g rank) = {})"
      by blast
  qed
  have mem: "rank \<in> set (?g rank)" using r by simp
  have sub: "set (?g rank) \<subseteq> {..<length color_strings}" by auto
  from p mem sub s pos others
  show "\<exists>members. partition_by_string color_strings rank = Inr members
         \<and> rank \<in> set members
         \<and> set members \<subseteq> {..<length color_strings}
         \<and> sorted_wrt (<) members
         \<and> (\<forall>i<length members. Get_rank members (members ! i) = Inr i)
         \<and> (\<forall>q<length color_strings. \<exists>other. partition_by_string color_strings q = Inr other
               \<and> (other = members \<or> set other \<inter> set members = {}))"
    by blast
next
  show "map (partition_by_string [''S'', ''S'', ''T'', ''T'']) [0, 1, 2, 3]
        = [Inr [0, 1], Inr [0, 1], Inr [2, 3], Inr [2, 3]]"
    by code_simp
next
  show "map (Get_rank [0, 1]) [0, 1] = [Inr 0, Inr 1]" by code_simp
next
  show "map (Get_rank [2, 3]) [2, 3] = [Inr 0, Inr 1]" by code_simp
next
  show "map (color_index [''S'', ''S'', ''T'', ''T'']) [0, 1, 2, 3] = [Inr 0, Inr 0, Inr 2, Inr 2]"
    by code_simp
qed

theorem partition_is_true_partition_witness:
  "partition_by_string [''T'', ''S'', ''T''] 2 = Inr [0, 2]
   \<and> Get_rank [0, 2] 2 = Inr 1
   \<and> partition_by_string [''T'', ''S'', ''T''] 1 = Inr [1]"
proof -
  have "2 < length [''T'', ''S'', ''T'']" by simp
  with partition_is_true_partition [of 2 "[''T'', ''S'', ''T'']"]
  obtain members where "partition_by_string [''T'', ''S'', ''T''] 2 = Inr members"
    and "2 \<in> set members"
    by blast
  moreover have "partition_by_string [''T'', ''S'', ''T''] 2 = Inr [0, 2]" by code_simp
  moreover have "Get_rank [0, 2] 2 = Inr 1" by code_simp
  moreover have "partition_by_string [''T'', ''S'', ''T''] 1 = Inr [1]" by code_simp
  ultimately show ?thesis by simp
qed

text \<open>As stated, C9 calls the T-group of the scenario group 1; the id the code computes
  for it is 2.\<close>

theorem second_group_id_counterexample:
  "partition_by_string [''S'', ''S'', ''T'', ''T''] 2 = Inr [2, 3]
   \<and> color_index [''S'', ''S'', ''T'', ''T''] 2 = Inr 2
   \<and> color_index [''S'', ''S'', ''T'', ''T''] 2 \<noteq> Inr 1"
  by code_simp

section \<open>The directed broadcast\<close>

text \<open>
  Claim C3. When \<open>local_root\<close> is the local rank of a sending rank, a directed
  broadcast returns the root's send value on every receiving rank and None on every
  sending rank, the root included, and the root is the only sending rank that passes a
  value to the broadcast; all others pass None and opt out. The witness is the
  scenario with three sending ranks, two receiving ranks and \<open>local_root = 1\<close>.
\<close>

theorem directed_broadcast_results:
  assumes "0 \<le> local_root" "nat local_root < length send_values"
  shows "directed_broadcast send_values unused_values local_root =
           (replicate (length send_values) (Inr None),
            replicate (length unused_values) (Inr (Some (send_values ! nat local_root))))
         \<and> sender_calls send_values local_root =
           (replicate (length send_values) (None, MPI_PROC_NULL))
             [nat local_root := (Some (send_values ! nat local_root), MPI_ROOT)]"
proof -
  note sc = sender_calls_root [OF assms]
  have snd_results: "map (\<lambda>i. intercomm_broadcast (receiver_calls unused_values local_root)
                 (send_values ! i) (int i) local_root True) [0..<length send_values]
        = replicate (length send_values) (Inr None)"
    using map_const_replicate [of "[0..<length send_values]"
        "\<lambda>i. intercomm_broadcast (receiver_calls unused_values local_root)
                 (send_values ! i) (int i) local_root True" "Inr None"]
    by (simp add: intercomm_broadcast_def intercomm_broadcast_args_def bcast_inter_def)
  have one: "\<And>j. intercomm_broadcast (sender_calls send_values local_root)
                 (unused_values ! j) (int j) local_root False = Inr (Some (send_values ! nat local_root))"
    using assms unfolding sc
    by (simp add: intercomm_broadcast_def intercomm_broadcast_args_def bcast_inter_def)
  have rcv_results: "map (\<lambda>j. intercomm_broadcast (sender_calls send_values local_root)
                 (unused_values ! j) (int j) local_root False) [0..<length unused_values]
        = replicate (length unused_values) (Inr (Some (send_values ! nat local_root)))"
    using map_const_replicate [of "[0..<length unused_values]"
        "\<lambda>j. intercomm_broadcast (sender_calls send_values local_root)
                 (unused_values ! j) (int j) local_root False" "Inr (Some (send_values ! nat local_root))"]
      one by simp
  from snd_results rcv_results sc show ?thesis
    by (simp add: directed_broadcast_def)
qed

theorem directed_broadcast_results_witness:
  "directed_broadcast [10, 20, 30 :: int] [0, 0] 1 =
     ([Inr None, Inr None, Inr None], [Inr (Some 20), Inr (Some 20)])
   \<and> sender_calls [10, 20, 30 :: int] 1 =
     [(None, MPI_PROC_NULL), (Some 20, MPI_ROOT), (None, MPI_PROC_NULL)]"
proof -
  have h: "(0::int) \<le> 1" "nat 1 < length [10, 20, 30 :: int]" by simp_all
  show ?thesis
    using directed_broadcast_results [OF h, of "[0, 0]"]
    by (simp add: numeral_3_eq_3 numeral_2_eq_2)
qed

text \<open>
  Claim C10. \<open>intercomm_broadcast\<close> does not check \<open>local_root\<close>: a sending rank
  declares itself root exactly when its local rank equals \<open>local_root\<close>, whatever
  integer that is. The number of roots among the sending ranks is therefore one when
  \<open>local_root\<close> is a local rank of the sending group and zero otherwise; in that case
  every sending rank passes no value and opts out with \<open>MPI_PROC_NULL\<close>, so that no
  rank sources the broadcast.
\<close>

theorem intercomm_broadcast_root_unchecked:
  "intercomm_broadcast_args send_value local_rank local_root True =
     (if local_rank = local_root then (Some send_value, MPI_ROOT) else (None, MPI_PROC_NULL))
   \<and> length (filter (\<lambda>c. snd c = MPI_ROOT) (sender_calls send_values local_root)) =
     (if 0 \<le> local_root \<and> local_root < int (length send_values) then 1 else 0)
   \<and> (\<not> (0 \<le> local_root \<and> local_root < int (length send_values)) \<longrightarrow>
        sender_calls send_values local_root =
          replicate (length send_values) (None, MPI_PROC_NULL))"
proof (intro conjI impI)
  show "intercomm_broadcast_args send_value local_rank local_root True =
     (if local_rank = local_root then (Some send_value, MPI_ROOT) else (None, MPI_PROC_NULL))"
    by (simp add: intercomm_broadcast_args_def)
next
  show "length (filter (\<lambda>c. snd c = MPI_ROOT) (sender_calls send_values local_root)) =
     (if 0 \<le> local_root \<and> local_root < int (length send_values) then 1 else 0)"
  proof (cases "0 \<le> local_root \<and> local_root < int (length send_values)")
    case True
    then have h: "0 \<le> local_root" "nat local_root < length send_values" by auto
    let ?n = "length send_values"
    have "filter (\<lambda>c. snd c = MPI_ROOT)
            ((replicate ?n (None :: 'b option, MPI_PROC_NULL))
               [nat local_root := (Some (send_values ! nat local_root), MPI_ROOT)])
          = [(Some (send_values ! nat local_root), MPI_ROOT)]"
      using h(2) by (simp add: upd_conv_take_nth_drop)
    with True show ?thesis by (simp add: sender_calls_root [OF h])
  next
    case False
    then show ?thesis by (simp add: sender_calls_no_root)
  qed
next
  assume a: "\<not> (0 \<le> local_root \<and> local_root < int (length send_values))"
  show "sender_calls send_values local_root =
          replicate (length send_values) (None, MPI_PROC_NULL)"
    by (rule sender_calls_no_root [OF a])
qed

theorem intercomm_broadcast_root_unchecked_witness:
  "sender_calls [10, 20, 30 :: int] 3 =
     [(None, MPI_PROC_NULL), (None, MPI_PROC_NULL), (None, MPI_PROC_NULL)]
   \<and> sender_calls [10, 20, 30 :: int] (- 1) =
     [(None, MPI_PROC_NULL), (None, MPI_PROC_NULL), (None, MPI_PROC_NULL)]
   \<and> length (filter (\<lambda>c. snd c = MPI_ROOT) (sender_calls [10, 20, 30 :: int] 3)) = 0
   \<and> length (filter (\<lambda>c. snd c = MPI_ROOT) (sender_calls [10, 20, 30 :: int] (- 1))) = 0
   \<and> length (filter (\<lambda>c. snd c = MPI_ROOT) (sender_calls [10, 20, 30 :: int] 1)) = 1
   \<and> intercomm_broadcast_args (20 :: int) 1 1 True = (Some 20, MPI_ROOT)
   \<and> intercomm_broadcast_args (30 :: int) 2 1 True = (None, MPI_PROC_NULL)"
proof -
  note above = intercomm_broadcast_root_unchecked [of "20::int" 1 3 "[10, 20, 30 :: int]"]
  note below = intercomm_broadcast_root_unchecked [of "30::int" 2 "- 1" "[10, 20, 30 :: int]"]
  note inside = intercomm_broadcast_root_unchecked [of "20::int" 1 1 "[10, 20, 30 :: int]"]
  note other = intercomm_broadcast_root_unchecked [of "30::int" 2 1 "[10, 20, 30 :: int]"]
  have o: "\<not> (0 \<le> (3::int) \<and> (3::int) < int (length [10, 20, 30 :: int]))" by simp
  have u: "\<not> (0 \<le> (- 1::int) \<and> (- 1::int) < int (length [10, 20, 30 :: int]))" by simp
  from above o have calls: "sender_calls [10, 20, 30 :: int] 3 =
     replicate (length [10, 20, 30 :: int]) (None, MPI_PROC_NULL)"
    by blast
  from below u have calls': "sender_calls [10, 20, 30 :: int] (- 1) =
     replicate (length [10, 20, 30 :: int]) (None, MPI_PROC_NULL)"
    by blast
  from above have "length (filter (\<lambda>c. snd c = MPI_ROOT) (sender_calls [10, 20, 30 :: int] 3)) =
      (if 0 \<le> (3::int) \<and> (3::int) < int (length [10, 20, 30 :: int]) then 1 else 0)"
    by blast
  then have none: "length (filter (\<lambda>c. snd c = MPI_ROOT) (sender_calls [10, 20, 30 :: int] 3)) = 0"
    unfolding if_not_P [OF o] .
  from below have "length (filter (\<lambda>c. snd c = MPI_ROOT) (sender_calls [10, 20, 30 :: int] (- 1))) =
      (if 0 \<le> (- 1::int) \<and> (- 1::int) < int (length [10, 20, 30 :: int]) then 1 else 0)"
    by blast
  then have none': "length (filter (\<lambda>c. snd c = MPI_ROOT) (sender_calls [10, 20, 30 :: int] (- 1))) = 0"
    unfolding if_not_P [OF u] .
  from inside have one: "length (filter (\<lambda>c. snd c = MPI_ROOT) (sender_calls [10, 20, 30 :: int] 1)) = 1"
    by simp
  from inside have root: "intercomm_broadcast_args (20 :: int) 1 1 True = (Some 20, MPI_ROOT)"
    by simp
  from other have idle: "intercomm_broadcast_args (30 :: int) 2 1 True = (None, MPI_PROC_NULL)"
    by simp
  from calls calls' none none' one root idle show ?thesis by (simp add: numeral_3_eq_3)
qed

section \<open>The coupled universe up to the channel\<close>

lemma coupled_universe_labels:
  "map argv0 (coupled_universe ns sa nt ta)
     = replicate ns (solver_argv0 sa) @ replicate nt (tracker_argv0 ta)"
  by (simp add: coupled_universe_def)

lemma coupled_universe_length: "length (coupled_universe ns sa nt ta) = ns + nt"
  by (simp add: coupled_universe_def)

lemma coupled_universe_solver:
  "r < ns \<Longrightarrow> coupled_universe ns sa nt ta ! r = Solver sa"
  by (simp add: coupled_universe_def nth_append)

lemma coupled_universe_tracker:
  "ns \<le> r \<Longrightarrow> r < ns + nt \<Longrightarrow> coupled_universe ns sa nt ta ! r = Tracker ta"
  by (simp add: coupled_universe_def nth_append)

lemma filter_two_blocks_first:
  assumes "a \<noteq> b" "r < ns"
  shows "filter (\<lambda>q. (replicate ns a @ replicate nt b) ! q = (replicate ns a @ replicate nt b) ! r)
           [0..<ns + nt] = [0..<ns]"
proof -
  have split: "[0..<ns + nt] = [0..<ns] @ [ns..<ns + nt]"
    using upt_add_eq_append [of 0 ns nt] by simp
  have own: "(replicate ns a @ replicate nt b) ! r = a"
    using assms(2) by (simp add: nth_append)
  have first: "filter (\<lambda>q. (replicate ns a @ replicate nt b) ! q = a) [0..<ns] = [0..<ns]"
    by (rule filter_True) (simp add: nth_append)
  have second: "filter (\<lambda>q. (replicate ns a @ replicate nt b) ! q = a) [ns..<ns + nt] = []"
    by (rule filter_False) (use assms(1) in \<open>auto simp add: nth_append\<close>)
  show ?thesis unfolding own split filter_append first second by simp
qed

lemma filter_two_blocks_second:
  assumes "a \<noteq> b" "ns \<le> r" "r < ns + nt"
  shows "filter (\<lambda>q. (replicate ns a @ replicate nt b) ! q = (replicate ns a @ replicate nt b) ! r)
           [0..<ns + nt] = [ns..<ns + nt]"
proof -
  have split: "[0..<ns + nt] = [0..<ns] @ [ns..<ns + nt]"
    using upt_add_eq_append [of 0 ns nt] by simp
  have own: "(replicate ns a @ replicate nt b) ! r = b"
    using assms(2,3) by (simp add: nth_append)
  have first: "filter (\<lambda>q. (replicate ns a @ replicate nt b) ! q = b) [0..<ns] = []"
    by (rule filter_False) (use assms(1) in \<open>auto simp add: nth_append\<close>)
  have second: "filter (\<lambda>q. (replicate ns a @ replicate nt b) ! q = b) [ns..<ns + nt] = [ns..<ns + nt]"
    by (rule filter_True) (auto simp add: nth_append)
  show ?thesis unfolding own split filter_append first second by simp
qed

lemma partition_solver_group:
  assumes "solver_argv0 sa \<noteq> tracker_argv0 ta" "r < ns"
  shows "partition_by_string (map argv0 (coupled_universe ns sa nt ta)) r = Inr [0..<ns]"
proof -
  have "r < length (replicate ns (solver_argv0 sa) @ replicate nt (tracker_argv0 ta))"
    using assms(2) by simp
  from partition_by_string_filter [OF this] filter_two_blocks_first [OF assms]
  show ?thesis by (simp add: coupled_universe_labels)
qed

lemma partition_tracker_group:
  assumes "solver_argv0 sa \<noteq> tracker_argv0 ta" "ns \<le> r" "r < ns + nt"
  shows "partition_by_string (map argv0 (coupled_universe ns sa nt ta)) r = Inr [ns..<ns + nt]"
proof -
  have "r < length (replicate ns (solver_argv0 sa) @ replicate nt (tracker_argv0 ta))"
    using assms(3) by simp
  from partition_by_string_filter [OF this] filter_two_blocks_second [OF assms]
  show ?thesis by (simp add: coupled_universe_labels)
qed

lemma Get_rank_upt:
  assumes "m \<le> r" "r < n"
  shows "Get_rank [m..<n] r = Inr (r - m)"
proof -
  have "Get_rank [m..<n] ([m..<n] ! (r - m)) = Inr (r - m)"
    by (rule Get_rank_position) (use assms in \<open>simp_all add: sorted_wrt_upt\<close>)
  with assms show ?thesis by simp
qed

lemma Compare_solver_group: "0 < nt \<Longrightarrow> Compare [0..<ns] [0..<ns + nt] = UNEQUAL"
proof -
  assume nt: "0 < nt"
  then have "ns \<in> set [0..<ns + nt]" "ns \<notin> set [0..<ns]" by simp_all
  then have "set [0..<ns] \<noteq> set [0..<ns + nt]" "[0..<ns] \<noteq> [0..<ns + nt]" by metis+
  then show ?thesis unfolding Compare_def by simp
qed

lemma Compare_tracker_group: "0 < ns \<Longrightarrow> Compare [ns..<ns + nt] [0..<ns + nt] = UNEQUAL"
proof -
  assume ns: "0 < ns"
  then have "0 \<in> set [0..<ns + nt]" "0 \<notin> set [ns..<ns + nt]" by simp_all
  then have "set [ns..<ns + nt] \<noteq> set [0..<ns + nt]" "[ns..<ns + nt] \<noteq> [0..<ns + nt]" by metis+
  then show ?thesis unfolding Compare_def by simp
qed

lemma configure_solver_rank:
  "configure_solver r n g = configure_solver 0 n g"
  by (simp add: configure_solver_def)

lemma configure_tracker_rank:
  "configure_tracker r n p = configure_tracker 0 n p"
  by (simp add: configure_tracker_def)

lemma configure_solver_value:
  "0 < n \<Longrightarrow> configure_solver r n g = Inr (if 0 < g \<and> g mod int n = 0 then 0 else 1)"
  by (simp add: configure_solver_def)

lemma configure_tracker_value:
  "0 < n \<Longrightarrow> configure_tracker r n p = Inr (if 0 < p \<and> p mod int n \<noteq> 0 then 1 else 0)"
  by (simp add: configure_tracker_def)

lemma solver_startup_coupled:
  assumes "solver_argv0 sa \<noteq> tracker_argv0 ta" "r < ns"
    and "configure_solver 0 ns (solver_grid_points sa) = Inr c"
  shows "solver_startup (coupled_universe ns sa nt ta) r sa =
     Inr (Call \<lparr>application_comm = [0..<ns], application_rank = r, application_size = ns,
                startup_error_count = c, coupled_flag = False, intercomm = [],
                trace = [Partition_by_string (solver_argv0 sa)]\<rparr> (c, 0))"
proof -
  have g: "Get_rank [0..<ns] r = Inr r" using Get_rank_upt [of 0 r ns] assms(2) by simp
  have cfg: "configure_solver r ns (solver_grid_points sa) = Inr c"
    using assms(3) configure_solver_rank by metis
  show ?thesis
    unfolding solver_startup_def
    by (simp add: partition_solver_group [OF assms(1,2)] g Get_size_def cfg)
qed

lemma tracker_startup_coupled:
  assumes "solver_argv0 sa \<noteq> tracker_argv0 ta" "0 < ns" "ns \<le> r" "r < ns + nt"
  shows "tracker_startup (coupled_universe ns sa nt ta) r ta =
     Inr (Call \<lparr>application_comm = [ns..<ns + nt], application_rank = r - ns,
                application_size = nt, startup_error_count = 0, coupled_flag = True,
                intercomm = [],
                trace = [Partition_by_string (tracker_argv0 ta), Comm_Compare UNEQUAL]\<rparr> (0, 0))"
proof -
  have g: "Get_rank [ns..<ns + nt] r = Inr (r - ns)" by (rule Get_rank_upt) fact+
  show ?thesis
    unfolding tracker_startup_def
    by (simp add: partition_tracker_group [OF assms(1,3,4)] g Get_size_def
        coupled_universe_length Compare_tracker_group [OF assms(2)] Let_def)
qed

lemma startup_solver_rank:
  assumes "solver_argv0 sa \<noteq> tracker_argv0 ta" "r < ns"
    and "configure_solver 0 ns (solver_grid_points sa) = Inr c"
  shows "startup (coupled_universe ns sa nt ta) r =
     Inr (Call \<lparr>application_comm = [0..<ns], application_rank = r, application_size = ns,
                startup_error_count = c, coupled_flag = False, intercomm = [],
                trace = [Partition_by_string (solver_argv0 sa)]\<rparr> (c, 0))"
  unfolding startup_def
  by (simp add: coupled_universe_solver [OF assms(2)] solver_startup_coupled [OF assms])

lemma startup_tracker_rank:
  assumes "solver_argv0 sa \<noteq> tracker_argv0 ta" "0 < ns" "ns \<le> r" "r < ns + nt"
  shows "startup (coupled_universe ns sa nt ta) r =
     Inr (Call \<lparr>application_comm = [ns..<ns + nt], application_rank = r - ns,
                application_size = nt, startup_error_count = 0, coupled_flag = True,
                intercomm = [],
                trace = [Partition_by_string (tracker_argv0 ta), Comm_Compare UNEQUAL]\<rparr> (0, 0))"
  unfolding startup_def
  by (simp add: coupled_universe_tracker [OF assms(3,4)] tracker_startup_coupled [OF assms])

lemma world_calls_coupled:
  assumes "solver_argv0 sa \<noteq> tracker_argv0 ta" "0 < ns"
    and "configure_solver 0 ns (solver_grid_points sa) = Inr c"
  shows "world_calls (coupled_universe ns sa nt ta) =
           map Some (replicate ns (c, 0) @ replicate nt (0, 0))"
proof -
  let ?W = "coupled_universe ns sa nt ta"
  let ?f = "\<lambda>q. case startup ?W q of Inr (Call st c) \<Rightarrow> Some c | _ \<Rightarrow> None"
  have split: "[0..<ns + nt] = [0..<ns] @ [ns..<ns + nt]"
    using upt_add_eq_append [of 0 ns nt] by simp
  have first: "map ?f [0..<ns] = replicate (length [0..<ns]) (Some (c, 0))"
    by (rule map_const_replicate) (simp add: startup_solver_rank [OF assms(1) _ assms(3)])
  have second: "map ?f [ns..<ns + nt] = replicate (length [ns..<ns + nt]) (Some (0, 0))"
    by (rule map_const_replicate) (simp add: startup_tracker_rank [OF assms(1,2)])
  show ?thesis
    unfolding world_calls_def coupled_universe_length split map_append first second
    by (simp add: map_replicate)
qed

lemma those_map_Some: "those (map Some xs) = Some xs"
  by (induction xs) simp_all

lemma world_bcast_coupled:
  assumes "solver_argv0 sa \<noteq> tracker_argv0 ta" "0 < ns"
    and "configure_solver 0 ns (solver_grid_points sa) = Inr c"
  shows "bcast_intra (world_calls (coupled_universe ns sa nt ta)) 0 = Inr c"
proof -
  have "list_all (\<lambda>c. snd c = 0) (replicate ns (c, 0::nat) @ replicate nt (0::int, 0))"
    by (auto simp add: list_all_iff)
  moreover have "fst ((replicate ns (c, 0::nat) @ replicate nt (0, 0)) ! 0) = c"
    using assms(2) by (simp add: nth_append)
  ultimately show ?thesis
    unfolding bcast_intra_def world_calls_coupled [OF assms] those_map_Some
    using assms(2) by simp
qed

lemma Create_intercomm_solver:
  assumes "solver_argv0 sa \<noteq> tracker_argv0 ta" "0 < ns" "0 < nt"
  shows "Create_intercomm (partition_by_string (map argv0 (coupled_universe ns sa nt ta)))
           (ns + nt) [0..<ns] 0 ns = Inr [ns..<ns + nt]"
proof -
  have "partition_by_string (map argv0 (coupled_universe ns sa nt ta)) ns = Inr [ns..<ns + nt]"
    by (rule partition_tracker_group) (use assms in simp_all)
  then show ?thesis
    unfolding Create_intercomm_def using assms(2,3) by (simp add: list_all_iff)
qed

lemma Create_intercomm_tracker:
  assumes "solver_argv0 sa \<noteq> tracker_argv0 ta" "0 < ns" "0 < nt"
  shows "Create_intercomm (partition_by_string (map argv0 (coupled_universe ns sa nt ta)))
           (ns + nt) [ns..<ns + nt] 0 0 = Inr [0..<ns]"
proof -
  have "partition_by_string (map argv0 (coupled_universe ns sa nt ta)) 0 = Inr [0..<ns]"
    by (rule partition_solver_group) (use assms in simp_all)
  then show ?thesis
    unfolding Create_intercomm_def using assms(2,3) by (simp add: list_all_iff)
qed

section \<open>A tracker without a solver\<close>

lemma partition_single_label:
  assumes "r < length cs" "\<And>q. q < length cs \<Longrightarrow> cs ! q = cs ! r"
  shows "partition_by_string cs r = Inr [0..<length cs]"
proof -
  have "filter (\<lambda>q. cs ! q = cs ! r) [0..<length cs] = [0..<length cs]"
    by (rule filter_True) (simp add: assms(2))
  with partition_by_string_filter [OF assms(1)] show ?thesis by simp
qed

lemma tracker_startup_alone:
  assumes "r < length world"
    and "partition_by_string (map argv0 world) r = Inr [0..<length world]"
  shows "tracker_startup world r argv =
     Inr (Exit \<lparr>events = [Partition_by_string (tracker_argv0 argv), Comm_Compare CONGRUENT],
                exit_status = 1\<rparr>)"
proof -
  have g: "Get_rank [0..<length world] r = Inr r"
    using Get_rank_upt [of 0 r "length world"] assms(1) by simp
  show ?thesis
    unfolding tracker_startup_def by (simp add: assms(2) g Compare_def Let_def)
qed

lemma run_of_startup_exit:
  assumes "startup world r = Inr (Exit out)"
  shows "run world r = Inr out"
  unfolding run_def ready_def handshake_def by (simp add: assms)

text \<open>
  Claim C8. A tracker in a universe whose processes all carry the tracker's label
  (no solver is present) obtains a group whose members are the members of the
  universe; its run is the partition and the comparison, which answers CONGRUENT,
  followed by the exit with status 1: no world broadcast, no intercommunicator and
  no transfer appear in its trace.
\<close>

theorem standalone_tracker_exits_after_comparison:
  assumes "r < length world" and "world ! r = Tracker argv"
    and "\<forall>l \<in> set world. argv0 l = tracker_argv0 argv"
  shows "partition_by_string (map argv0 world) r = Inr [0..<length world] \<and>
         run world r =
           Inr \<lparr>events = [Partition_by_string (tracker_argv0 argv), Comm_Compare CONGRUENT],
                exit_status = 1\<rparr>"
proof -
  have same: "map argv0 world ! q = map argv0 world ! r" if "q < length (map argv0 world)" for q
  proof -
    from that have "world ! q \<in> set world" by simp
    moreover from assms(1) have "world ! r \<in> set world" by simp
    ultimately have "argv0 (world ! q) = argv0 (world ! r)" using assms(3) by simp
    then show ?thesis using that assms(1) by simp
  qed
  have "partition_by_string (map argv0 world) r = Inr [0..<length (map argv0 world)]"
    by (rule partition_single_label) (use assms(1) in simp, rule same)
  then have p: "partition_by_string (map argv0 world) r = Inr [0..<length world]"
    by simp
  have "startup world r =
     Inr (Exit \<lparr>events = [Partition_by_string (tracker_argv0 argv), Comm_Compare CONGRUENT],
                exit_status = 1\<rparr>)"
    unfolding startup_def by (simp add: assms(2) tracker_startup_alone [OF assms(1) p])
  from run_of_startup_exit [OF this] p show ?thesis by simp
qed

theorem standalone_tracker_exits_after_comparison_witness:
  "run [Tracker \<lparr>tracker_argv0 = ''tracker.py'', tracker_iterations = 5,
                  tracker_grid_points = 6, tracker_particles = 3\<rparr>,
        Tracker \<lparr>tracker_argv0 = ''tracker.py'', tracker_iterations = 5,
                  tracker_grid_points = 6, tracker_particles = 3\<rparr>,
        Tracker \<lparr>tracker_argv0 = ''tracker.py'', tracker_iterations = 5,
                  tracker_grid_points = 6, tracker_particles = 3\<rparr>] 1 =
     Inr \<lparr>events = [Partition_by_string ''tracker.py'', Comm_Compare CONGRUENT],
          exit_status = 1\<rparr>"
  using standalone_tracker_exits_after_comparison
    [of 1 "[Tracker \<lparr>tracker_argv0 = ''tracker.py'', tracker_iterations = 5,
                  tracker_grid_points = 6, tracker_particles = 3\<rparr>,
        Tracker \<lparr>tracker_argv0 = ''tracker.py'', tracker_iterations = 5,
                  tracker_grid_points = 6, tracker_particles = 3\<rparr>,
        Tracker \<lparr>tracker_argv0 = ''tracker.py'', tracker_iterations = 5,
                  tracker_grid_points = 6, tracker_particles = 3\<rparr>]"
      "\<lparr>tracker_argv0 = ''tracker.py'', tracker_iterations = 5,
                  tracker_grid_points = 6, tracker_particles = 3\<rparr>"]
  by simp

section \<open>The handshake of a coupled universe\<close>

lemma handshake_solver_failed:
  assumes "solver_argv0 sa \<noteq> tracker_argv0 ta" "r < ns"
    and "configure_solver 0 ns (solver_grid_points sa) = Inr c" "0 < c"
  shows "handshake (coupled_universe ns sa nt ta) r =
     Inr (Exit \<lparr>events = [Partition_by_string (solver_argv0 sa), World_bcast c 0 c],
                exit_status = 1\<rparr>)"
proof -
  have ns: "0 < ns" using assms(2) by simp
  show ?thesis
    unfolding handshake_def
    by (simp add: startup_solver_rank [OF assms(1,2,3)] world_bcast_coupled [OF assms(1) ns assms(3)]
        coupled_universe_solver [OF assms(2)] solver_couple_def assms(4))
qed

lemma handshake_tracker_failed:
  assumes "solver_argv0 sa \<noteq> tracker_argv0 ta" "0 < ns" "ns \<le> r" "r < ns + nt"
    and "configure_solver 0 ns (solver_grid_points sa) = Inr c" "0 < c"
  shows "handshake (coupled_universe ns sa nt ta) r =
     Inr (Exit \<lparr>events = [Partition_by_string (tracker_argv0 ta), Comm_Compare UNEQUAL,
                          World_bcast 0 0 c],
                exit_status = 1\<rparr>)"
  unfolding handshake_def
  by (simp add: startup_tracker_rank [OF assms(1,2,3,4)] world_bcast_coupled [OF assms(1,2,5)]
      coupled_universe_tracker [OF assms(3,4)] tracker_configure_def assms(6))

lemma handshake_solver_ok:
  assumes "solver_argv0 sa \<noteq> tracker_argv0 ta" "r < ns" "0 < nt"
    and "configure_solver 0 ns (solver_grid_points sa) = Inr 0"
  shows "handshake (coupled_universe ns sa nt ta) r =
     Inr (Call \<lparr>application_comm = [0..<ns], application_rank = r, application_size = ns,
                startup_error_count = 0, coupled_flag = True, intercomm = [ns..<ns + nt],
                trace = [Partition_by_string (solver_argv0 sa), World_bcast 0 0 0,
                         Comm_Compare UNEQUAL, Intercomm_created 0 ns]\<rparr>
            (0, int r, 0, False))"
proof -
  have ns: "0 < ns" using assms(2) by simp
  show ?thesis
    unfolding handshake_def
    by (simp add: startup_solver_rank [OF assms(1,2,4)] world_bcast_coupled [OF assms(1) ns assms(4)]
        coupled_universe_solver [OF assms(2)] solver_couple_def Let_def coupled_universe_length
        Compare_solver_group [OF assms(3)] Create_intercomm_solver [OF assms(1) ns assms(3)])
qed

lemma handshake_tracker_ok:
  assumes "solver_argv0 sa \<noteq> tracker_argv0 ta" "0 < ns" "ns \<le> r" "r < ns + nt"
    and "configure_solver 0 ns (solver_grid_points sa) = Inr 0"
    and "configure_tracker 0 nt (tracker_particles ta) = Inr ct"
  shows "handshake (coupled_universe ns sa nt ta) r =
     Inr (Call \<lparr>application_comm = [ns..<ns + nt], application_rank = r - ns,
                application_size = nt, startup_error_count = ct, coupled_flag = True,
                intercomm = [0..<ns],
                trace = [Partition_by_string (tracker_argv0 ta), Comm_Compare UNEQUAL,
                         World_bcast 0 0 0, Intercomm_created 0 0]\<rparr>
            (ct, int (r - ns), 0, True))"
proof -
  have nt: "0 < nt" using assms(3,4) by simp
  have cfg: "configure_tracker (r - ns) nt (tracker_particles ta) = Inr ct"
    using assms(6) configure_tracker_rank by metis
  show ?thesis
    unfolding handshake_def
    by (simp add: startup_tracker_rank [OF assms(1,2,3,4)] world_bcast_coupled [OF assms(1,2,5)]
        coupled_universe_tracker [OF assms(3,4)] tracker_configure_def Let_def cfg
        coupled_universe_length Create_intercomm_tracker [OF assms(1,2) nt])
qed

lemma those_map_Some_of: "those (map (\<lambda>q. Some (f q)) xs) = Some (map f xs)"
  by (induction xs) simp_all

lemma handshake_calls_trackers:
  assumes "solver_argv0 sa \<noteq> tracker_argv0 ta" "0 < ns"
    and "configure_solver 0 ns (solver_grid_points sa) = Inr 0"
    and "configure_tracker 0 nt (tracker_particles ta) = Inr ct"
  shows "those (handshake_calls (coupled_universe ns sa nt ta) [ns..<ns + nt]) =
     Some (map (\<lambda>q. intercomm_broadcast_args ct (int (q - ns)) 0 True) [ns..<ns + nt])"
proof -
  have "handshake_calls (coupled_universe ns sa nt ta) [ns..<ns + nt] =
      map (\<lambda>q. Some (intercomm_broadcast_args ct (int (q - ns)) 0 True)) [ns..<ns + nt]"
    unfolding handshake_calls_def
    by (rule map_cong [OF refl]) (simp add: handshake_tracker_ok [OF assms(1,2) _ _ assms(3,4)])
  then show ?thesis by (simp only: those_map_Some_of)
qed

lemma handshake_calls_solvers:
  assumes "solver_argv0 sa \<noteq> tracker_argv0 ta" "0 < nt"
    and "configure_solver 0 ns (solver_grid_points sa) = Inr 0"
  shows "those (handshake_calls (coupled_universe ns sa nt ta) [0..<ns]) =
     Some (map (\<lambda>q. intercomm_broadcast_args 0 (int q) 0 False) [0..<ns])"
proof -
  have "handshake_calls (coupled_universe ns sa nt ta) [0..<ns] =
      map (\<lambda>q. Some (intercomm_broadcast_args 0 (int q) 0 False)) [0..<ns]"
    unfolding handshake_calls_def
    by (rule map_cong [OF refl]) (simp add: handshake_solver_ok [OF assms(1) _ assms(2,3)])
  then show ?thesis by (simp only: those_map_Some_of)
qed

lemma solver_receives_tracker_count:
  assumes "0 < nt"
  shows "intercomm_broadcast
           (map (\<lambda>q. intercomm_broadcast_args ct (int (q - ns)) 0 True) [ns..<ns + nt])
           0 (int r) 0 False = Inr (Some ct)"
  using assms
  by (simp add: intercomm_broadcast_def intercomm_broadcast_args_def bcast_inter_def)

lemma tracker_sends_count:
  "intercomm_broadcast (map (\<lambda>q. intercomm_broadcast_args 0 (int q) 0 False) [0..<ns])
     ct local_rank 0 True = Inr None"
  by (simp add: intercomm_broadcast_def intercomm_broadcast_args_def bcast_inter_def)

lemma ready_solver_coupled:
  assumes "solver_argv0 sa \<noteq> tracker_argv0 ta" "r < ns" "0 < nt"
    and "configure_solver 0 ns (solver_grid_points sa) = Inr 0"
    and "configure_tracker 0 nt (tracker_particles ta) = Inr ct"
  shows "ready (coupled_universe ns sa nt ta) r =
     Inr (if 0 < ct
          then Exit \<lparr>events = [Partition_by_string (solver_argv0 sa), World_bcast 0 0 0,
                               Comm_Compare UNEQUAL, Intercomm_created 0 ns,
                               Intercomm_broadcast 0 (int r) 0 False (Some ct)],
                     exit_status = 1\<rparr>
          else Proceed \<lparr>application_comm = [0..<ns], application_rank = r,
                  application_size = ns, startup_error_count = ct, coupled_flag = True,
                  intercomm = [ns..<ns + nt],
                  trace = [Partition_by_string (solver_argv0 sa), World_bcast 0 0 0,
                           Comm_Compare UNEQUAL, Intercomm_created 0 ns,
                           Intercomm_broadcast 0 (int r) 0 False (Some ct)]\<rparr>)"
proof -
  have ns: "0 < ns" using assms(2) by simp
  show ?thesis
    unfolding ready_def
    by (simp add: handshake_solver_ok [OF assms(1,2,3,4)]
        handshake_calls_trackers [OF assms(1) ns assms(4,5)]
        solver_receives_tracker_count [OF assms(3)]
        coupled_universe_solver [OF assms(2)] solver_confirm_def Let_def)
qed

lemma ready_tracker_coupled:
  assumes "solver_argv0 sa \<noteq> tracker_argv0 ta" "0 < ns" "ns \<le> r" "r < ns + nt"
    and "configure_solver 0 ns (solver_grid_points sa) = Inr 0"
    and "configure_tracker 0 nt (tracker_particles ta) = Inr ct"
  shows "ready (coupled_universe ns sa nt ta) r =
     Inr (if 0 < ct
          then Exit \<lparr>events = [Partition_by_string (tracker_argv0 ta), Comm_Compare UNEQUAL,
                               World_bcast 0 0 0, Intercomm_created 0 0,
                               Intercomm_broadcast ct (int (r - ns)) 0 True None],
                     exit_status = 1\<rparr>
          else Proceed \<lparr>application_comm = [ns..<ns + nt], application_rank = r - ns,
                  application_size = nt, startup_error_count = ct, coupled_flag = True,
                  intercomm = [0..<ns],
                  trace = [Partition_by_string (tracker_argv0 ta), Comm_Compare UNEQUAL,
                           World_bcast 0 0 0, Intercomm_created 0 0,
                           Intercomm_broadcast ct (int (r - ns)) 0 True None]\<rparr>)"
proof -
  have nt: "0 < nt" using assms(3,4) by simp
  show ?thesis
    unfolding ready_def
    by (simp add: handshake_tracker_ok [OF assms]
        handshake_calls_solvers [OF assms(1) nt assms(5)]
        tracker_sends_count
        coupled_universe_tracker [OF assms(3,4)] tracker_confirm_def Let_def)
qed

lemma run_of_handshake_exit:
  assumes "handshake world r = Inr (Exit out)"
  shows "run world r = Inr out"
  unfolding run_def ready_def by (simp add: assms)

section \<open>A solver whose grid does not divide\<close>

text \<open>
  Claim C5. A solver launched on three ranks with ten grid points, coupled with a
  tracker on any positive number of ranks: the solver's configuration check returns
  1, the world broadcast with root 0 returns that 1, and the run of every solver rank
  and of every tracker rank ends with exit status 1 right after the world broadcast,
  which is recorded with the result 1; no intercommunicator is made and no transfer
  of the loop is called.
\<close>

theorem indivisible_grid_stops_both_roles:
  assumes "solver_argv0 sa \<noteq> tracker_argv0 ta" and "solver_grid_points sa = 10"
    and "s < 3" and "3 \<le> t" and "t < 3 + nt"
  shows "configure_solver s 3 (solver_grid_points sa) = Inr 1 \<and>
         bcast_intra (world_calls (coupled_universe 3 sa nt ta)) 0 = Inr 1 \<and>
         run (coupled_universe 3 sa nt ta) s =
           Inr \<lparr>events = [Partition_by_string (solver_argv0 sa), World_bcast 1 0 1],
                exit_status = 1\<rparr> \<and>
         run (coupled_universe 3 sa nt ta) t =
           Inr \<lparr>events = [Partition_by_string (tracker_argv0 ta), Comm_Compare UNEQUAL,
                          World_bcast 0 0 1],
                exit_status = 1\<rparr>"
proof -
  have c: "configure_solver q 3 (solver_grid_points sa) = Inr 1" for q
    by (simp add: configure_solver_def assms(2))
  have three: "0 < (3::nat)" by simp
  have one: "0 < (1::int)" by simp
  have b: "bcast_intra (world_calls (coupled_universe 3 sa nt ta)) 0 = Inr 1"
    by (rule world_bcast_coupled [OF assms(1) three c])
  have rs: "run (coupled_universe 3 sa nt ta) s =
           Inr \<lparr>events = [Partition_by_string (solver_argv0 sa), World_bcast 1 0 1],
                exit_status = 1\<rparr>"
    by (rule run_of_handshake_exit) (rule handshake_solver_failed [OF assms(1,3) c one])
  have rt: "run (coupled_universe 3 sa nt ta) t =
           Inr \<lparr>events = [Partition_by_string (tracker_argv0 ta), Comm_Compare UNEQUAL,
                          World_bcast 0 0 1],
                exit_status = 1\<rparr>"
    by (rule run_of_handshake_exit) (rule handshake_tracker_failed [OF assms(1) three assms(4,5) c one])
  from c [of s] b rs rt show ?thesis by simp
qed

theorem indivisible_grid_stops_both_roles_witness:
  "configure_solver 2 3 10 = Inr 1 \<and>
   bcast_intra (world_calls (coupled_universe 3
       \<lparr>solver_argv0 = ''solver.py'', solver_iterations = 5, solver_grid_points = 10\<rparr> 2
       \<lparr>tracker_argv0 = ''tracker.py'', tracker_iterations = 5, tracker_grid_points = 10,
        tracker_particles = 4\<rparr>)) 0 = Inr 1 \<and>
   run (coupled_universe 3
       \<lparr>solver_argv0 = ''solver.py'', solver_iterations = 5, solver_grid_points = 10\<rparr> 2
       \<lparr>tracker_argv0 = ''tracker.py'', tracker_iterations = 5, tracker_grid_points = 10,
        tracker_particles = 4\<rparr>) 2 =
     Inr \<lparr>events = [Partition_by_string ''solver.py'', World_bcast 1 0 1], exit_status = 1\<rparr> \<and>
   run (coupled_universe 3
       \<lparr>solver_argv0 = ''solver.py'', solver_iterations = 5, solver_grid_points = 10\<rparr> 2
       \<lparr>tracker_argv0 = ''tracker.py'', tracker_iterations = 5, tracker_grid_points = 10,
        tracker_particles = 4\<rparr>) 4 =
     Inr \<lparr>events = [Partition_by_string ''tracker.py'', Comm_Compare UNEQUAL, World_bcast 0 0 1],
          exit_status = 1\<rparr>"
  using indivisible_grid_stops_both_roles
    [of "\<lparr>solver_argv0 = ''solver.py'', solver_iterations = 5, solver_grid_points = 10\<rparr>"
        "\<lparr>tracker_argv0 = ''tracker.py'', tracker_iterations = 5, tracker_grid_points = 10,
          tracker_particles = 4\<rparr>" 2 4 2]
  by simp

section \<open>What the two broadcasts of the handshake carry\<close>

lemma run_of_ready_exit:
  assumes "ready world r = Inr (Exit out)"
  shows "run world r = Inr out"
  unfolding run_def by (simp add: assms)

lemma configure_tracker_range:
  assumes "configure_tracker r n p = Inr c"
  shows "c = 0 \<or> c = 1"
  using assms by (auto simp add: configure_tracker_def split: if_splits)

text \<open>
  Claim C6. In a coupled run the world broadcast returns the solver's count on every
  rank: every rank names root 0, a solver rank, and the value a tracker rank passes
  is not delivered. When that count is zero, the directed broadcast that follows is
  called by every tracker rank with the tracker's count as send value, root 0 and the
  sending flag set, and by every solver rank with the flag cleared; the solver
  obtains the tracker's count from it, and when that count is not zero the run of the
  solver ends there with exit status 1.
\<close>

theorem handshake_carries_tracker_count:
  assumes "solver_argv0 sa \<noteq> tracker_argv0 ta" and "0 < nt"
    and "s < ns" and "ns \<le> t" and "t < ns + nt"
    and "configure_solver s ns (solver_grid_points sa) = Inr cs"
    and "configure_tracker (t - ns) nt (tracker_particles ta) = Inr ct"
  shows "bcast_intra (world_calls (coupled_universe ns sa nt ta)) 0 = Inr cs \<and>
         (cs = 0 \<longrightarrow>
           (\<exists>st. handshake (coupled_universe ns sa nt ta) t =
                   Inr (Call st (ct, int (t - ns), 0, True))) \<and>
           (\<exists>st. handshake (coupled_universe ns sa nt ta) s =
                   Inr (Call st (0, int s, 0, False))) \<and>
           (ct \<noteq> 0 \<longrightarrow>
              run (coupled_universe ns sa nt ta) s =
                Inr \<lparr>events = [Partition_by_string (solver_argv0 sa), World_bcast 0 0 0,
                               Comm_Compare UNEQUAL, Intercomm_created 0 ns,
                               Intercomm_broadcast 0 (int s) 0 False (Some ct)],
                     exit_status = 1\<rparr>))"
proof -
  have ns: "0 < ns" using assms(3) by simp
  have cs: "configure_solver 0 ns (solver_grid_points sa) = Inr cs"
    using assms(6) configure_solver_rank by metis
  have ct: "configure_tracker 0 nt (tracker_particles ta) = Inr ct"
    using assms(7) configure_tracker_rank by metis
  have b: "bcast_intra (world_calls (coupled_universe ns sa nt ta)) 0 = Inr cs"
    by (rule world_bcast_coupled [OF assms(1) ns cs])
  have ok: "(\<exists>st. handshake (coupled_universe ns sa nt ta) t =
                   Inr (Call st (ct, int (t - ns), 0, True))) \<and>
           (\<exists>st. handshake (coupled_universe ns sa nt ta) s =
                   Inr (Call st (0, int s, 0, False))) \<and>
           (ct \<noteq> 0 \<longrightarrow>
              run (coupled_universe ns sa nt ta) s =
                Inr \<lparr>events = [Partition_by_string (solver_argv0 sa), World_bcast 0 0 0,
                               Comm_Compare UNEQUAL, Intercomm_created 0 ns,
                               Intercomm_broadcast 0 (int s) 0 False (Some ct)],
                     exit_status = 1\<rparr>)" if zero: "cs = 0"
  proof -
    have cs0: "configure_solver 0 ns (solver_grid_points sa) = Inr 0"
      using cs zero by simp
    have ht: "\<exists>st. handshake (coupled_universe ns sa nt ta) t =
                   Inr (Call st (ct, int (t - ns), 0, True))"
      unfolding handshake_tracker_ok [OF assms(1) ns assms(4,5) cs0 ct] by blast
    have hs: "\<exists>st. handshake (coupled_universe ns sa nt ta) s =
                   Inr (Call st (0, int s, 0, False))"
      unfolding handshake_solver_ok [OF assms(1,3,2) cs0] by blast
    have r: "run (coupled_universe ns sa nt ta) s =
                Inr \<lparr>events = [Partition_by_string (solver_argv0 sa), World_bcast 0 0 0,
                               Comm_Compare UNEQUAL, Intercomm_created 0 ns,
                               Intercomm_broadcast 0 (int s) 0 False (Some ct)],
                     exit_status = 1\<rparr>" if "ct \<noteq> 0"
    proof -
      from that configure_tracker_range [OF ct] have pos: "0 < ct" by auto
      show ?thesis
        by (rule run_of_ready_exit)
          (simp add: ready_solver_coupled [OF assms(1,3,2) cs0 ct] pos)
    qed
    from ht hs r show ?thesis by blast
  qed
  from b ok show ?thesis by blast
qed

theorem handshake_carries_tracker_count_witness:
  "bcast_intra (world_calls (coupled_universe 2
       \<lparr>solver_argv0 = ''solver.py'', solver_iterations = 5, solver_grid_points = 5\<rparr> 3
       \<lparr>tracker_argv0 = ''tracker.py'', tracker_iterations = 5, tracker_grid_points = 5,
        tracker_particles = 6\<rparr>)) 0 = Inr 1 \<and>
   bcast_intra (world_calls (coupled_universe 2
       \<lparr>solver_argv0 = ''solver.py'', solver_iterations = 5, solver_grid_points = 4\<rparr> 3
       \<lparr>tracker_argv0 = ''tracker.py'', tracker_iterations = 5, tracker_grid_points = 4,
        tracker_particles = 7\<rparr>)) 0 = Inr 0 \<and>
   (\<exists>st. handshake (coupled_universe 2
       \<lparr>solver_argv0 = ''solver.py'', solver_iterations = 5, solver_grid_points = 4\<rparr> 3
       \<lparr>tracker_argv0 = ''tracker.py'', tracker_iterations = 5, tracker_grid_points = 4,
        tracker_particles = 7\<rparr>) 3 = Inr (Call st (1, 1, 0, True))) \<and>
   (\<exists>st. handshake (coupled_universe 2
       \<lparr>solver_argv0 = ''solver.py'', solver_iterations = 5, solver_grid_points = 4\<rparr> 3
       \<lparr>tracker_argv0 = ''tracker.py'', tracker_iterations = 5, tracker_grid_points = 4,
        tracker_particles = 7\<rparr>) 1 = Inr (Call st (0, 1, 0, False))) \<and>
   run (coupled_universe 2
       \<lparr>solver_argv0 = ''solver.py'', solver_iterations = 5, solver_grid_points = 4\<rparr> 3
       \<lparr>tracker_argv0 = ''tracker.py'', tracker_iterations = 5, tracker_grid_points = 4,
        tracker_particles = 7\<rparr>) 1 =
     Inr \<lparr>events = [Partition_by_string ''solver.py'', World_bcast 0 0 0,
                    Comm_Compare UNEQUAL, Intercomm_created 0 2,
                    Intercomm_broadcast 0 1 0 False (Some 1)],
          exit_status = 1\<rparr>"
proof -
  have cs: "configure_solver 1 2 (solver_grid_points
       \<lparr>solver_argv0 = ''solver.py'', solver_iterations = 5, solver_grid_points = 4\<rparr>) = Inr 0"
    by (simp add: configure_solver_def)
  have ct: "configure_tracker (3 - 2) 3 (tracker_particles
       \<lparr>tracker_argv0 = ''tracker.py'', tracker_iterations = 5, tracker_grid_points = 4,
        tracker_particles = 7\<rparr>) = Inr 1"
    by (simp add: configure_tracker_def)
  have l: "solver_argv0 \<lparr>solver_argv0 = ''solver.py'', solver_iterations = 5, solver_grid_points = 4\<rparr>
      \<noteq> tracker_argv0 \<lparr>tracker_argv0 = ''tracker.py'', tracker_iterations = 5,
          tracker_grid_points = 4, tracker_particles = 7\<rparr>"
    by simp
  have cs': "configure_solver 1 2 (solver_grid_points
       \<lparr>solver_argv0 = ''solver.py'', solver_iterations = 5, solver_grid_points = 5\<rparr>) = Inr 1"
    by (simp add: configure_solver_def)
  have ct': "configure_tracker (3 - 2) 3 (tracker_particles
       \<lparr>tracker_argv0 = ''tracker.py'', tracker_iterations = 5, tracker_grid_points = 5,
        tracker_particles = 6\<rparr>) = Inr 0"
    by (simp add: configure_tracker_def)
  have l': "solver_argv0 \<lparr>solver_argv0 = ''solver.py'', solver_iterations = 5, solver_grid_points = 5\<rparr>
      \<noteq> tracker_argv0 \<lparr>tracker_argv0 = ''tracker.py'', tracker_iterations = 5,
          tracker_grid_points = 5, tracker_particles = 6\<rparr>"
    by simp
  have n: "(0::nat) < 3" "(1::nat) < 2" "(2::nat) \<le> 3" "(3::nat) < 2 + 3" by simp_all
  from handshake_carries_tracker_count [OF l n cs ct]
    handshake_carries_tracker_count [OF l' n cs' ct']
  show ?thesis by simp
qed

section \<open>When the intercommunicator is made\<close>

lemma configure_solver_range:
  assumes "configure_solver r n g = Inr c"
  shows "c = 0 \<or> c = 1"
  using assms by (auto simp add: configure_solver_def split: if_splits)

text \<open>
  Claim C4, as the code has it. In a coupled run the intercommunicator is made after
  the world broadcast and before the directed broadcast. When the solver's count is
  positive, no rank makes it: every run ends after the world broadcast. When the
  solver's count is zero, every solver rank and every tracker rank makes it, whatever
  the tracker's count is, and the directed broadcast over it is what carries the
  tracker's count; a rank then exits with status 1 when that count is positive and
  goes on to the loop otherwise.
\<close>

theorem channel_created_after_world_broadcast:
  assumes "solver_argv0 sa \<noteq> tracker_argv0 ta" and "0 < nt"
    and "s < ns" and "ns \<le> t" and "t < ns + nt"
    and "configure_solver s ns (solver_grid_points sa) = Inr cs"
    and "configure_tracker (t - ns) nt (tracker_particles ta) = Inr ct"
  shows "(cs \<noteq> 0 \<longrightarrow>
            run (coupled_universe ns sa nt ta) s =
              Inr \<lparr>events = [Partition_by_string (solver_argv0 sa), World_bcast cs 0 cs],
                   exit_status = 1\<rparr> \<and>
            run (coupled_universe ns sa nt ta) t =
              Inr \<lparr>events = [Partition_by_string (tracker_argv0 ta), Comm_Compare UNEQUAL,
                             World_bcast 0 0 cs],
                   exit_status = 1\<rparr>) \<and>
         (cs = 0 \<longrightarrow>
            ready (coupled_universe ns sa nt ta) s =
              Inr (if 0 < ct
                   then Exit \<lparr>events = [Partition_by_string (solver_argv0 sa), World_bcast 0 0 0,
                                        Comm_Compare UNEQUAL, Intercomm_created 0 ns,
                                        Intercomm_broadcast 0 (int s) 0 False (Some ct)],
                              exit_status = 1\<rparr>
                   else Proceed \<lparr>application_comm = [0..<ns], application_rank = s,
                           application_size = ns, startup_error_count = ct,
                           coupled_flag = True, intercomm = [ns..<ns + nt],
                           trace = [Partition_by_string (solver_argv0 sa), World_bcast 0 0 0,
                                    Comm_Compare UNEQUAL, Intercomm_created 0 ns,
                                    Intercomm_broadcast 0 (int s) 0 False (Some ct)]\<rparr>) \<and>
            ready (coupled_universe ns sa nt ta) t =
              Inr (if 0 < ct
                   then Exit \<lparr>events = [Partition_by_string (tracker_argv0 ta),
                                        Comm_Compare UNEQUAL, World_bcast 0 0 0,
                                        Intercomm_created 0 0,
                                        Intercomm_broadcast ct (int (t - ns)) 0 True None],
                              exit_status = 1\<rparr>
                   else Proceed \<lparr>application_comm = [ns..<ns + nt],
                           application_rank = t - ns, application_size = nt,
                           startup_error_count = ct, coupled_flag = True,
                           intercomm = [0..<ns],
                           trace = [Partition_by_string (tracker_argv0 ta),
                                    Comm_Compare UNEQUAL, World_bcast 0 0 0,
                                    Intercomm_created 0 0,
                                    Intercomm_broadcast ct (int (t - ns)) 0 True None]\<rparr>))"
proof -
  have ns: "0 < ns" using assms(3) by simp
  have cs: "configure_solver 0 ns (solver_grid_points sa) = Inr cs"
    using assms(6) configure_solver_rank by metis
  have ct: "configure_tracker 0 nt (tracker_particles ta) = Inr ct"
    using assms(7) configure_tracker_rank by metis
  have failed: "run (coupled_universe ns sa nt ta) s =
              Inr \<lparr>events = [Partition_by_string (solver_argv0 sa), World_bcast cs 0 cs],
                   exit_status = 1\<rparr> \<and>
            run (coupled_universe ns sa nt ta) t =
              Inr \<lparr>events = [Partition_by_string (tracker_argv0 ta), Comm_Compare UNEQUAL,
                             World_bcast 0 0 cs],
                   exit_status = 1\<rparr>" if "cs \<noteq> 0"
  proof -
    from that configure_solver_range [OF cs] have pos: "0 < cs" by auto
    have "run (coupled_universe ns sa nt ta) s =
              Inr \<lparr>events = [Partition_by_string (solver_argv0 sa), World_bcast cs 0 cs],
                   exit_status = 1\<rparr>"
      by (rule run_of_handshake_exit) (rule handshake_solver_failed [OF assms(1,3) cs pos])
    moreover have "run (coupled_universe ns sa nt ta) t =
              Inr \<lparr>events = [Partition_by_string (tracker_argv0 ta), Comm_Compare UNEQUAL,
                             World_bcast 0 0 cs],
                   exit_status = 1\<rparr>"
      by (rule run_of_handshake_exit)
        (rule handshake_tracker_failed [OF assms(1) ns assms(4,5) cs pos])
    ultimately show ?thesis by (rule conjI)
  qed
  have made: "ready (coupled_universe ns sa nt ta) s =
              Inr (if 0 < ct
                   then Exit \<lparr>events = [Partition_by_string (solver_argv0 sa), World_bcast 0 0 0,
                                        Comm_Compare UNEQUAL, Intercomm_created 0 ns,
                                        Intercomm_broadcast 0 (int s) 0 False (Some ct)],
                              exit_status = 1\<rparr>
                   else Proceed \<lparr>application_comm = [0..<ns], application_rank = s,
                           application_size = ns, startup_error_count = ct,
                           coupled_flag = True, intercomm = [ns..<ns + nt],
                           trace = [Partition_by_string (solver_argv0 sa), World_bcast 0 0 0,
                                    Comm_Compare UNEQUAL, Intercomm_created 0 ns,
                                    Intercomm_broadcast 0 (int s) 0 False (Some ct)]\<rparr>) \<and>
            ready (coupled_universe ns sa nt ta) t =
              Inr (if 0 < ct
                   then Exit \<lparr>events = [Partition_by_string (tracker_argv0 ta),
                                        Comm_Compare UNEQUAL, World_bcast 0 0 0,
                                        Intercomm_created 0 0,
                                        Intercomm_broadcast ct (int (t - ns)) 0 True None],
                              exit_status = 1\<rparr>
                   else Proceed \<lparr>application_comm = [ns..<ns + nt],
                           application_rank = t - ns, application_size = nt,
                           startup_error_count = ct, coupled_flag = True,
                           intercomm = [0..<ns],
                           trace = [Partition_by_string (tracker_argv0 ta),
                                    Comm_Compare UNEQUAL, World_bcast 0 0 0,
                                    Intercomm_created 0 0,
                                    Intercomm_broadcast ct (int (t - ns)) 0 True None]\<rparr>)"
    if zero: "cs = 0"
  proof -
    have cs0: "configure_solver 0 ns (solver_grid_points sa) = Inr 0"
      using cs zero by simp
    show ?thesis
      by (rule conjI)
        (rule ready_solver_coupled [OF assms(1,3,2) cs0 ct],
         rule ready_tracker_coupled [OF assms(1) ns assms(4,5) cs0 ct])
  qed
  from failed made show ?thesis by blast
qed

theorem channel_created_after_world_broadcast_witness:
  "ready (coupled_universe 2
       \<lparr>solver_argv0 = ''solver.py'', solver_iterations = 5, solver_grid_points = 4\<rparr> 3
       \<lparr>tracker_argv0 = ''tracker.py'', tracker_iterations = 5, tracker_grid_points = 4,
        tracker_particles = 6\<rparr>) 1 =
     Inr (Proceed \<lparr>application_comm = [0..<2], application_rank = 1,
            application_size = 2, startup_error_count = 0,
            coupled_flag = True, intercomm = [2..<2 + 3],
            trace = [Partition_by_string ''solver.py'', World_bcast 0 0 0,
                     Comm_Compare UNEQUAL, Intercomm_created 0 2,
                     Intercomm_broadcast 0 1 0 False (Some 0)]\<rparr>) \<and>
   ready (coupled_universe 2
       \<lparr>solver_argv0 = ''solver.py'', solver_iterations = 5, solver_grid_points = 4\<rparr> 3
       \<lparr>tracker_argv0 = ''tracker.py'', tracker_iterations = 5, tracker_grid_points = 4,
        tracker_particles = 6\<rparr>) 3 =
     Inr (Proceed \<lparr>application_comm = [2..<2 + 3], application_rank = 1,
            application_size = 3, startup_error_count = 0,
            coupled_flag = True, intercomm = [0..<2],
            trace = [Partition_by_string ''tracker.py'', Comm_Compare UNEQUAL,
                     World_bcast 0 0 0, Intercomm_created 0 0,
                     Intercomm_broadcast 0 1 0 True None]\<rparr>) \<and>
   run (coupled_universe 2
       \<lparr>solver_argv0 = ''solver.py'', solver_iterations = 5, solver_grid_points = 5\<rparr> 3
       \<lparr>tracker_argv0 = ''tracker.py'', tracker_iterations = 5, tracker_grid_points = 5,
        tracker_particles = 6\<rparr>) 1 =
     Inr \<lparr>events = [Partition_by_string ''solver.py'', World_bcast 1 0 1], exit_status = 1\<rparr> \<and>
   run (coupled_universe 2
       \<lparr>solver_argv0 = ''solver.py'', solver_iterations = 5, solver_grid_points = 5\<rparr> 3
       \<lparr>tracker_argv0 = ''tracker.py'', tracker_iterations = 5, tracker_grid_points = 5,
        tracker_particles = 6\<rparr>) 3 =
     Inr \<lparr>events = [Partition_by_string ''tracker.py'', Comm_Compare UNEQUAL,
                    World_bcast 0 0 1], exit_status = 1\<rparr>"
proof -
  have cs: "configure_solver 1 2 (solver_grid_points
       \<lparr>solver_argv0 = ''solver.py'', solver_iterations = 5, solver_grid_points = 4\<rparr>) = Inr 0"
    by (simp add: configure_solver_def)
  have ct: "configure_tracker (3 - 2) 3 (tracker_particles
       \<lparr>tracker_argv0 = ''tracker.py'', tracker_iterations = 5, tracker_grid_points = 4,
        tracker_particles = 6\<rparr>) = Inr 0"
    by (simp add: configure_tracker_def)
  have l: "solver_argv0 \<lparr>solver_argv0 = ''solver.py'', solver_iterations = 5, solver_grid_points = 4\<rparr>
      \<noteq> tracker_argv0 \<lparr>tracker_argv0 = ''tracker.py'', tracker_iterations = 5,
          tracker_grid_points = 4, tracker_particles = 6\<rparr>"
    by simp
  have cs': "configure_solver 1 2 (solver_grid_points
       \<lparr>solver_argv0 = ''solver.py'', solver_iterations = 5, solver_grid_points = 5\<rparr>) = Inr 1"
    by (simp add: configure_solver_def)
  have ct': "configure_tracker (3 - 2) 3 (tracker_particles
       \<lparr>tracker_argv0 = ''tracker.py'', tracker_iterations = 5, tracker_grid_points = 5,
        tracker_particles = 6\<rparr>) = Inr 0"
    by (simp add: configure_tracker_def)
  have l': "solver_argv0 \<lparr>solver_argv0 = ''solver.py'', solver_iterations = 5, solver_grid_points = 5\<rparr>
      \<noteq> tracker_argv0 \<lparr>tracker_argv0 = ''tracker.py'', tracker_iterations = 5,
          tracker_grid_points = 5, tracker_particles = 6\<rparr>"
    by simp
  have n: "(0::nat) < 3" "(1::nat) < 2" "(2::nat) \<le> 3" "(3::nat) < 2 + 3" by simp_all
  from channel_created_after_world_broadcast [OF l n cs ct]
    channel_created_after_world_broadcast [OF l' n cs' ct']
  show ?thesis by simp
qed

text \<open>
  Claim C4 as the specification states it does not hold. Two solver ranks with four
  grid points and three tracker ranks with seven particles: the tracker's
  configuration check returns 1, yet every rank has made the intercommunicator
  before that count is exchanged; the solver learns of it over the channel.
\<close>

theorem channel_created_with_failed_tracker:
  "configure_tracker 0 3 7 = Inr 1 \<and>
   run (coupled_universe 2
       \<lparr>solver_argv0 = ''solver.py'', solver_iterations = 5, solver_grid_points = 4\<rparr> 3
       \<lparr>tracker_argv0 = ''tracker.py'', tracker_iterations = 5, tracker_grid_points = 4,
        tracker_particles = 7\<rparr>) 0 =
     Inr \<lparr>events = [Partition_by_string ''solver.py'', World_bcast 0 0 0,
                    Comm_Compare UNEQUAL, Intercomm_created 0 2,
                    Intercomm_broadcast 0 0 0 False (Some 1)],
          exit_status = 1\<rparr> \<and>
   run (coupled_universe 2
       \<lparr>solver_argv0 = ''solver.py'', solver_iterations = 5, solver_grid_points = 4\<rparr> 3
       \<lparr>tracker_argv0 = ''tracker.py'', tracker_iterations = 5, tracker_grid_points = 4,
        tracker_particles = 7\<rparr>) 2 =
     Inr \<lparr>events = [Partition_by_string ''tracker.py'', Comm_Compare UNEQUAL,
                    World_bcast 0 0 0, Intercomm_created 0 0,
                    Intercomm_broadcast 1 0 0 True None],
          exit_status = 1\<rparr>"
proof -
  let ?sa = "\<lparr>solver_argv0 = ''solver.py'', solver_iterations = 5, solver_grid_points = 4\<rparr>"
  let ?ta = "\<lparr>tracker_argv0 = ''tracker.py'', tracker_iterations = 5, tracker_grid_points = 4,
        tracker_particles = 7\<rparr>"
  have cs: "configure_solver 0 2 (solver_grid_points ?sa) = Inr 0"
    by (simp add: configure_solver_def)
  have ct: "configure_tracker 0 3 (tracker_particles ?ta) = Inr 1"
    by (simp add: configure_tracker_def)
  have l: "solver_argv0 ?sa \<noteq> tracker_argv0 ?ta" by simp
  have n: "(0::nat) < 2" "(0::nat) < 3" "(2::nat) \<le> 2" "(2::nat) < 2 + 3" by simp_all
  have "run (coupled_universe 2 ?sa 3 ?ta) 0 =
     Inr \<lparr>events = [Partition_by_string ''solver.py'', World_bcast 0 0 0,
                    Comm_Compare UNEQUAL, Intercomm_created 0 2,
                    Intercomm_broadcast 0 0 0 False (Some 1)],
          exit_status = 1\<rparr>"
    by (rule run_of_ready_exit) (simp add: ready_solver_coupled [OF l n(1,2) cs ct])
  moreover have "run (coupled_universe 2 ?sa 3 ?ta) 2 =
     Inr \<lparr>events = [Partition_by_string ''tracker.py'', Comm_Compare UNEQUAL,
                    World_bcast 0 0 0, Intercomm_created 0 0,
                    Intercomm_broadcast 1 0 0 True None],
          exit_status = 1\<rparr>"
    by (rule run_of_ready_exit) (simp add: ready_tracker_coupled [OF l n(1,3,4) cs ct])
  moreover have "configure_tracker 0 3 7 = Inr 1" by (simp add: configure_tracker_def)
  ultimately show ?thesis by simp
qed

section \<open>The iteration loop of a coupled universe\<close>

lemma velocity_same:
  "velocity \<lparr>velocity_x = v, velocity_y = v, velocity_z = v, empty_data = e\<rparr> c = v"
  by (cases c) simp_all

lemma solver_buffers_value:
  assumes "0 < application_size st" "0 \<le> solver_grid_points sa"
  shows "solver_buffers st sa =
     Inr \<lparr>velocity_x = replicate (nat (solver_grid_points sa div int (application_size st)))
                          (real (application_rank st)),
          velocity_y = replicate (nat (solver_grid_points sa div int (application_size st)))
                          (real (application_rank st)),
          velocity_z = replicate (nat (solver_grid_points sa div int (application_size st)))
                          (real (application_rank st)),
          empty_data = []\<rparr>"
proof -
  have "\<not> solver_grid_points sa div int (application_size st) < 0"
    using assms by (simp add: pos_imp_zdiv_neg_iff)
  then show ?thesis
    unfolding solver_buffers_def Let_def using assms(1) by simp
qed

lemma configure_solver_passes:
  assumes "0 < n" "0 < g" "g mod int n = 0"
  shows "configure_solver r n g = Inr 0"
  using assms by (simp add: configure_solver_def)

lemma configure_tracker_passes:
  assumes "0 < n" "p \<le> 0 \<or> p mod int n = 0"
  shows "configure_tracker r n p = Inr 0"
  using assms by (auto simp add: configure_tracker_def)

lemma loop_send_solver:
  assumes "solver_argv0 sa \<noteq> tracker_argv0 ta" "r < ns" "0 < nt"
    and "0 < solver_grid_points sa" "solver_grid_points sa mod int ns = 0"
    and "tracker_particles ta \<le> 0 \<or> tracker_particles ta mod int nt = 0"
    and "int i < solver_iterations sa"
  shows "loop_send (coupled_universe ns sa nt ta) r i c =
     Some (replicate (nat (solver_grid_points sa div int ns)) (real r))"
proof -
  have ns: "0 < ns" using assms(2) by simp
  have cs: "configure_solver 0 ns (solver_grid_points sa) = Inr 0"
    by (rule configure_solver_passes [OF ns assms(4,5)])
  have ct: "configure_tracker 0 nt (tracker_particles ta) = Inr 0"
    by (rule configure_tracker_passes [OF assms(3,6)])
  let ?st = "\<lparr>application_comm = [0..<ns], application_rank = r,
                  application_size = ns, startup_error_count = 0, coupled_flag = True,
                  intercomm = [ns..<ns + nt],
                  trace = [Partition_by_string (solver_argv0 sa), World_bcast 0 0 0,
                           Comm_Compare UNEQUAL, Intercomm_created 0 ns,
                           Intercomm_broadcast 0 (int r) 0 False (Some 0)]\<rparr>"
  have rd: "ready (coupled_universe ns sa nt ta) r = Inr (Proceed ?st)"
    using ready_solver_coupled [OF assms(1,2,3) cs ct] by simp
  have b: "solver_buffers ?st sa =
     Inr \<lparr>velocity_x = replicate (nat (solver_grid_points sa div int ns)) (real r),
          velocity_y = replicate (nat (solver_grid_points sa div int ns)) (real r),
          velocity_z = replicate (nat (solver_grid_points sa div int ns)) (real r),
          empty_data = []\<rparr>"
    using solver_buffers_value [of ?st sa] ns assms(4) by simp
  show ?thesis
    unfolding loop_send_def rd
    by (simp add: coupled_universe_solver [OF assms(2)] assms(7) b velocity_same)
qed

lemma loop_send_tracker:
  assumes "solver_argv0 sa \<noteq> tracker_argv0 ta" "0 < ns" "ns \<le> r" "r < ns + nt"
    and "0 < solver_grid_points sa" "solver_grid_points sa mod int ns = 0"
    and "tracker_particles ta \<le> 0 \<or> tracker_particles ta mod int nt = 0"
    and "0 \<le> tracker_grid_points ta"
    and "int i < tracker_iterations ta"
  shows "loop_send (coupled_universe ns sa nt ta) r i c = Some []"
proof -
  have nt: "0 < nt" using assms(3,4) by simp
  have cs: "configure_solver 0 ns (solver_grid_points sa) = Inr 0"
    by (rule configure_solver_passes [OF assms(2,5,6)])
  have ct: "configure_tracker 0 nt (tracker_particles ta) = Inr 0"
    by (rule configure_tracker_passes [OF nt assms(7)])
  have rd: "ready (coupled_universe ns sa nt ta) r =
     Inr (Proceed \<lparr>application_comm = [ns..<ns + nt], application_rank = r - ns,
                  application_size = nt, startup_error_count = 0, coupled_flag = True,
                  intercomm = [0..<ns],
                  trace = [Partition_by_string (tracker_argv0 ta), Comm_Compare UNEQUAL,
                           World_bcast 0 0 0, Intercomm_created 0 0,
                           Intercomm_broadcast 0 (int (r - ns)) 0 True None]\<rparr>)"
    using ready_tracker_coupled [OF assms(1,2,3,4) cs ct] by simp
  show ?thesis
    unfolding loop_send_def rd
    using assms(8,9)
    by (simp add: coupled_universe_tracker [OF assms(3,4)] tracker_buffer_length_def)
qed

lemma Allgather_inter_blocks:
  assumes "xs \<noteq> []" "n mod length xs = 0"
    and "\<And>q. q \<in> set xs \<Longrightarrow> length (f q) = n div length xs"
  shows "Allgather_inter (map (\<lambda>q. Some (f q)) xs) sendbuf n = Inr (concat (map f xs))"
  unfolding Allgather_inter_def those_map_Some_of
  using assms by (simp add: list_all_iff)

lemma iterate_same:
  assumes "\<And>i. i \<in> set xs \<Longrightarrow> body i = Inr evs"
  shows "iterate body xs = Inr (concat (replicate (length xs) evs))"
  using assms by (induction xs) simp_all

lemma length_concat_blocks:
  "length (concat (map (\<lambda>q. replicate k (f q)) xs)) = length xs * k"
  by (induction xs) simp_all

lemma nat_blocks:
  assumes "0 < ns" "0 < g" "g mod int ns = 0"
  shows "nat g mod ns = 0" and "nat g div ns = nat (g div int ns)"
    and "ns * nat (g div int ns) = nat g"
proof -
  have "nat (g mod int ns) = nat g mod nat (int ns)"
    by (rule nat_mod_distrib) (use assms in simp_all)
  then show m: "nat g mod ns = 0" using assms(3) by simp
  have "nat (g div int ns) = nat g div nat (int ns)"
    by (rule nat_div_distrib) (use assms in simp)
  then show d: "nat g div ns = nat (g div int ns)" by simp
  have "ns * (nat g div ns) = nat g" using m by (simp add: mod_eq_0_iff_dvd)
  then show "ns * nat (g div int ns) = nat g" using d by simp
qed

lemma run_tracker_coupled:
  assumes "solver_argv0 sa \<noteq> tracker_argv0 ta" "0 < ns" "ns \<le> r" "r < ns + nt"
    and "0 < solver_grid_points sa" "solver_grid_points sa mod int ns = 0"
    and "tracker_particles ta \<le> 0 \<or> tracker_particles ta mod int nt = 0"
    and "tracker_grid_points ta = solver_grid_points sa"
    and "tracker_iterations ta \<le> solver_iterations sa"
  shows "run (coupled_universe ns sa nt ta) r =
     Inr \<lparr>events =
            [Partition_by_string (tracker_argv0 ta), Comm_Compare UNEQUAL, World_bcast 0 0 0,
             Intercomm_created 0 0, Intercomm_broadcast 0 (int (r - ns)) 0 True None] @
            concat (replicate (nat (tracker_iterations ta))
              [Intercomm_Allgather Velocity_X []
                 (concat (map (\<lambda>q. replicate (nat (solver_grid_points sa div int ns)) (real q))
                    [0..<ns])),
               Intercomm_Allgather Velocity_Y []
                 (concat (map (\<lambda>q. replicate (nat (solver_grid_points sa div int ns)) (real q))
                    [0..<ns])),
               Intercomm_Allgather Velocity_Z []
                 (concat (map (\<lambda>q. replicate (nat (solver_grid_points sa div int ns)) (real q))
                    [0..<ns]))]) @
            [Finalize],
          exit_status = 0\<rparr>"
proof -
  let ?W = "coupled_universe ns sa nt ta"
  let ?k = "nat (solver_grid_points sa div int ns)"
  let ?field = "concat (map (\<lambda>q. replicate ?k (real q)) [0..<ns])"
  let ?st = "\<lparr>application_comm = [ns..<ns + nt], application_rank = r - ns,
                  application_size = nt, startup_error_count = 0, coupled_flag = True,
                  intercomm = [0..<ns],
                  trace = [Partition_by_string (tracker_argv0 ta), Comm_Compare UNEQUAL,
                           World_bcast 0 0 0, Intercomm_created 0 0,
                           Intercomm_broadcast 0 (int (r - ns)) 0 True None]\<rparr>"
  have nt: "0 < nt" using assms(3,4) by simp
  have cs: "configure_solver 0 ns (solver_grid_points sa) = Inr 0"
    by (rule configure_solver_passes [OF assms(2,5,6)])
  have ct: "configure_tracker 0 nt (tracker_particles ta) = Inr 0"
    by (rule configure_tracker_passes [OF nt assms(7)])
  have rd: "ready ?W r = Inr (Proceed ?st)"
    using ready_tracker_coupled [OF assms(1,2,3,4) cs ct] by simp
  have len: "tracker_buffer_length ta = Inr (nat (solver_grid_points sa))"
    using assms(5,8) by (simp add: tracker_buffer_length_def)
  have remote: "remote_sends ?W ?st i c = map (\<lambda>q. Some (replicate ?k (real q))) [0..<ns]"
    if "i \<in> set [0..<nat (tracker_iterations ta)]" for i c
  proof -
    from that assms(9) have i: "int i < solver_iterations sa" by simp
    show ?thesis
      unfolding remote_sends_def
      by (rule map_cong)
        (simp_all add: loop_send_solver [OF assms(1) _ nt assms(5,6,7) i])
  qed
  have gather: "Allgather_inter (map (\<lambda>q. Some (replicate ?k (real q))) [0..<ns]) []
      (nat (solver_grid_points sa)) = Inr ?field"
    by (rule Allgather_inter_blocks)
      (use assms(2) nat_blocks [OF assms(2,5,6)] in simp_all)
  have body: "tracker_iteration (remote_sends ?W ?st i) (nat (solver_grid_points sa)) =
      Inr [Intercomm_Allgather Velocity_X [] ?field,
           Intercomm_Allgather Velocity_Y [] ?field,
           Intercomm_Allgather Velocity_Z [] ?field]"
    if "i \<in> set [0..<nat (tracker_iterations ta)]" for i
    unfolding tracker_iteration_def remote [OF that] gather by simp
  have loop: "iterate (\<lambda>i. tracker_iteration (remote_sends ?W ?st i) (nat (solver_grid_points sa)))
      [0..<nat (tracker_iterations ta)] =
      Inr (concat (replicate (length [0..<nat (tracker_iterations ta)])
        [Intercomm_Allgather Velocity_X [] ?field,
         Intercomm_Allgather Velocity_Y [] ?field,
         Intercomm_Allgather Velocity_Z [] ?field]))"
    by (rule iterate_same) (rule body)
  show ?thesis
    unfolding run_def rd
    by (simp add: coupled_universe_tracker [OF assms(3,4)] tracker_loop_def len loop)
qed

lemma run_solver_coupled:
  assumes "solver_argv0 sa \<noteq> tracker_argv0 ta" "r < ns" "0 < nt"
    and "0 < solver_grid_points sa" "solver_grid_points sa mod int ns = 0"
    and "tracker_particles ta \<le> 0 \<or> tracker_particles ta mod int nt = 0"
    and "0 \<le> tracker_grid_points ta"
    and "solver_iterations sa \<le> tracker_iterations ta"
  shows "run (coupled_universe ns sa nt ta) r =
     Inr \<lparr>events =
            [Partition_by_string (solver_argv0 sa), World_bcast 0 0 0, Comm_Compare UNEQUAL,
             Intercomm_created 0 ns, Intercomm_broadcast 0 (int r) 0 False (Some 0)] @
            concat (replicate (nat (solver_iterations sa))
              [Intercomm_Allgather Velocity_X
                 (replicate (nat (solver_grid_points sa div int ns)) (real r)) [],
               Intercomm_Allgather Velocity_Y
                 (replicate (nat (solver_grid_points sa div int ns)) (real r)) [],
               Intercomm_Allgather Velocity_Z
                 (replicate (nat (solver_grid_points sa div int ns)) (real r)) []]) @
            [Finalize],
          exit_status = 0\<rparr>"
proof -
  let ?W = "coupled_universe ns sa nt ta"
  let ?slice = "replicate (nat (solver_grid_points sa div int ns)) (real r)"
  let ?st = "\<lparr>application_comm = [0..<ns], application_rank = r,
                  application_size = ns, startup_error_count = 0, coupled_flag = True,
                  intercomm = [ns..<ns + nt],
                  trace = [Partition_by_string (solver_argv0 sa), World_bcast 0 0 0,
                           Comm_Compare UNEQUAL, Intercomm_created 0 ns,
                           Intercomm_broadcast 0 (int r) 0 False (Some 0)]\<rparr>"
  let ?b = "\<lparr>velocity_x = ?slice, velocity_y = ?slice, velocity_z = ?slice,
             empty_data = []\<rparr>"
  have ns: "0 < ns" using assms(2) by simp
  have cs: "configure_solver 0 ns (solver_grid_points sa) = Inr 0"
    by (rule configure_solver_passes [OF ns assms(4,5)])
  have ct: "configure_tracker 0 nt (tracker_particles ta) = Inr 0"
    by (rule configure_tracker_passes [OF assms(3,6)])
  have rd: "ready ?W r = Inr (Proceed ?st)"
    using ready_solver_coupled [OF assms(1,2,3) cs ct] by simp
  have b: "solver_buffers ?st sa = Inr ?b"
    using solver_buffers_value [of ?st sa] ns assms(4) by simp
  have remote: "remote_sends ?W ?st i c = map (\<lambda>q. Some []) [ns..<ns + nt]"
    if "i \<in> set [0..<nat (solver_iterations sa)]" for i c
  proof -
    from that assms(8) have i: "int i < tracker_iterations ta" by simp
    show ?thesis
      unfolding remote_sends_def
      by (rule map_cong)
        (simp_all add: loop_send_tracker [OF assms(1) ns _ _ assms(4,5,6,7) i])
  qed
  have gather: "Allgather_inter (map (\<lambda>q. Some []) [ns..<ns + nt]) sendbuf 0 = Inr []"
    for sendbuf :: "real list"
    using Allgather_inter_blocks [of "[ns..<ns + nt]" 0 "\<lambda>q. []" sendbuf] assms(3)
    by simp
  have body: "solver_iteration (remote_sends ?W ?st i) ?st ?b =
      Inr [Intercomm_Allgather Velocity_X ?slice [],
           Intercomm_Allgather Velocity_Y ?slice [],
           Intercomm_Allgather Velocity_Z ?slice []]"
    if "i \<in> set [0..<nat (solver_iterations sa)]" for i
    unfolding solver_iteration_def remote [OF that] by (simp add: gather)
  have loop: "iterate (\<lambda>i. solver_iteration (remote_sends ?W ?st i) ?st ?b)
      [0..<nat (solver_iterations sa)] =
      Inr (concat (replicate (length [0..<nat (solver_iterations sa)])
        [Intercomm_Allgather Velocity_X ?slice [],
         Intercomm_Allgather Velocity_Y ?slice [],
         Intercomm_Allgather Velocity_Z ?slice []]))"
    by (rule iterate_same) (rule body)
  show ?thesis
    unfolding run_def rd
    by (simp add: coupled_universe_solver [OF assms(2)] solver_loop_def b loop)
qed

section \<open>The transfers of an iteration\<close>

text \<open>
  Claim C7. A coupled run in which both configuration checks pass, both command
  lines give the same number of grid points and the same number of iterations. Every
  iteration of a solver rank is three transfers over the intercommunicator, for the
  X, then the Y, then the Z component, each sending the rank's slice of
  grid points / solver size values and receiving nothing; every iteration of a
  tracker rank is the three matching transfers, each sending the empty array and
  receiving the slices of the solver ranks 0, 1, ... in this order, which fill the
  whole receive buffer of grid points values.
\<close>

theorem coupled_iteration_three_transfers:
  assumes "solver_argv0 sa \<noteq> tracker_argv0 ta" and "0 < nt"
    and "s < ns" and "ns \<le> t" and "t < ns + nt"
    and "0 < solver_grid_points sa" and "solver_grid_points sa mod int ns = 0"
    and "tracker_particles ta \<le> 0 \<or> tracker_particles ta mod int nt = 0"
    and "tracker_grid_points ta = solver_grid_points sa"
    and "tracker_iterations ta = solver_iterations sa"
  shows "run (coupled_universe ns sa nt ta) s =
     Inr \<lparr>events =
            [Partition_by_string (solver_argv0 sa), World_bcast 0 0 0, Comm_Compare UNEQUAL,
             Intercomm_created 0 ns, Intercomm_broadcast 0 (int s) 0 False (Some 0)] @
            concat (replicate (nat (solver_iterations sa))
              [Intercomm_Allgather Velocity_X
                 (replicate (nat (solver_grid_points sa div int ns)) (real s)) [],
               Intercomm_Allgather Velocity_Y
                 (replicate (nat (solver_grid_points sa div int ns)) (real s)) [],
               Intercomm_Allgather Velocity_Z
                 (replicate (nat (solver_grid_points sa div int ns)) (real s)) []]) @
            [Finalize],
          exit_status = 0\<rparr> \<and>
    run (coupled_universe ns sa nt ta) t =
     Inr \<lparr>events =
            [Partition_by_string (tracker_argv0 ta), Comm_Compare UNEQUAL, World_bcast 0 0 0,
             Intercomm_created 0 0, Intercomm_broadcast 0 (int (t - ns)) 0 True None] @
            concat (replicate (nat (tracker_iterations ta))
              [Intercomm_Allgather Velocity_X []
                 (concat (map (\<lambda>q. replicate (nat (solver_grid_points sa div int ns)) (real q))
                    [0..<ns])),
               Intercomm_Allgather Velocity_Y []
                 (concat (map (\<lambda>q. replicate (nat (solver_grid_points sa div int ns)) (real q))
                    [0..<ns])),
               Intercomm_Allgather Velocity_Z []
                 (concat (map (\<lambda>q. replicate (nat (solver_grid_points sa div int ns)) (real q))
                    [0..<ns]))]) @
            [Finalize],
          exit_status = 0\<rparr> \<and>
    length (concat (map (\<lambda>q. replicate (nat (solver_grid_points sa div int ns)) (real q))
                    [0..<ns])) = nat (tracker_grid_points ta)"
proof -
  have ns: "0 < ns" using assms(3) by simp
  have g: "0 \<le> tracker_grid_points ta" using assms(6,9) by simp
  have i1: "solver_iterations sa \<le> tracker_iterations ta"
    and i2: "tracker_iterations ta \<le> solver_iterations sa"
    using assms(10) by simp_all
  have "length (concat (map (\<lambda>q. replicate (nat (solver_grid_points sa div int ns)) (real q))
                    [0..<ns])) = nat (tracker_grid_points ta)"
    using nat_blocks(3) [OF ns assms(6,7)] assms(9) by (simp add: length_concat_blocks)
  with run_solver_coupled [OF assms(1,3,2,6,7,8) g i1]
    run_tracker_coupled [OF assms(1) ns assms(4,5,6,7,8,9) i2]
  show ?thesis by (intro conjI)
qed

theorem coupled_iteration_three_transfers_witness:
  "run (coupled_universe 2
       \<lparr>solver_argv0 = ''solver.py'', solver_iterations = 2, solver_grid_points = 4\<rparr> 3
       \<lparr>tracker_argv0 = ''tracker.py'', tracker_iterations = 2, tracker_grid_points = 4,
        tracker_particles = 6\<rparr>) 1 =
     Inr \<lparr>events =
            [Partition_by_string ''solver.py'', World_bcast 0 0 0, Comm_Compare UNEQUAL,
             Intercomm_created 0 2, Intercomm_broadcast 0 1 0 False (Some 0),
             Intercomm_Allgather Velocity_X [1, 1] [],
             Intercomm_Allgather Velocity_Y [1, 1] [],
             Intercomm_Allgather Velocity_Z [1, 1] [],
             Intercomm_Allgather Velocity_X [1, 1] [],
             Intercomm_Allgather Velocity_Y [1, 1] [],
             Intercomm_Allgather Velocity_Z [1, 1] [],
             Finalize],
          exit_status = 0\<rparr> \<and>
   run (coupled_universe 2
       \<lparr>solver_argv0 = ''solver.py'', solver_iterations = 2, solver_grid_points = 4\<rparr> 3
       \<lparr>tracker_argv0 = ''tracker.py'', tracker_iterations = 2, tracker_grid_points = 4,
        tracker_particles = 6\<rparr>) 3 =
     Inr \<lparr>events =
            [Partition_by_string ''tracker.py'', Comm_Compare UNEQUAL, World_bcast 0 0 0,
             Intercomm_created 0 0, Intercomm_broadcast 0 1 0 True None,
             Intercomm_Allgather Velocity_X [] [0, 0, 1, 1],
             Intercomm_Allgather Velocity_Y [] [0, 0, 1, 1],
             Intercomm_Allgather Velocity_Z [] [0, 0, 1, 1],
             Intercomm_Allgather Velocity_X [] [0, 0, 1, 1],
             Intercomm_Allgather Velocity_Y [] [0, 0, 1, 1],
             Intercomm_Allgather Velocity_Z [] [0, 0, 1, 1],
             Finalize],
          exit_status = 0\<rparr>"
proof -
  let ?sa = "\<lparr>solver_argv0 = ''solver.py'', solver_iterations = 2, solver_grid_points = 4\<rparr>"
  let ?ta = "\<lparr>tracker_argv0 = ''tracker.py'', tracker_iterations = 2, tracker_grid_points = 4,
        tracker_particles = 6\<rparr>"
  have l: "solver_argv0 ?sa \<noteq> tracker_argv0 ?ta" by simp
  have n: "(0::nat) < 3" "(1::nat) < 2" "(2::nat) \<le> 3" "(3::nat) < 2 + 3" by simp_all
  have g: "0 < solver_grid_points ?sa" "solver_grid_points ?sa mod int 2 = 0"
    "tracker_particles ?ta \<le> 0 \<or> tracker_particles ?ta mod int 3 = 0"
    "tracker_grid_points ?ta = solver_grid_points ?sa"
    "tracker_iterations ?ta = solver_iterations ?sa"
    by simp_all
  have k: "nat (solver_grid_points ?sa div int 2) = Suc (Suc 0)" by simp
  have u: "[0..<2] = [0, Suc 0]" by (simp add: upt_rec)
  have i: "nat (solver_iterations ?sa) = Suc (Suc 0)" "nat (tracker_iterations ?ta) = Suc (Suc 0)"
    by simp_all
  from coupled_iteration_three_transfers [OF l n g]
  show ?thesis unfolding k u i by simp
qed

section \<open>A tracker without particles\<close>

text \<open>
  Claim C2, as the code has it. \<open>configure_tracker\<close> prints its message for a particle
  count that is not positive but leaves the error count at 0. In a coupled run whose
  solver passes its check, a tracker launched with such a count therefore sends 0
  over the channel, runs all its iterations and ends with exit status 0.
\<close>

theorem nonpositive_particles_are_not_counted:
  assumes "solver_argv0 sa \<noteq> tracker_argv0 ta" and "0 < ns"
    and "ns \<le> t" and "t < ns + nt"
    and "0 < solver_grid_points sa" and "solver_grid_points sa mod int ns = 0"
    and "tracker_particles ta \<le> 0"
    and "tracker_grid_points ta = solver_grid_points sa"
    and "tracker_iterations ta = solver_iterations sa"
  shows "configure_tracker (t - ns) nt (tracker_particles ta) = Inr 0 \<and>
    run (coupled_universe ns sa nt ta) t =
     Inr \<lparr>events =
            [Partition_by_string (tracker_argv0 ta), Comm_Compare UNEQUAL, World_bcast 0 0 0,
             Intercomm_created 0 0, Intercomm_broadcast 0 (int (t - ns)) 0 True None] @
            concat (replicate (nat (tracker_iterations ta))
              [Intercomm_Allgather Velocity_X []
                 (concat (map (\<lambda>q. replicate (nat (solver_grid_points sa div int ns)) (real q))
                    [0..<ns])),
               Intercomm_Allgather Velocity_Y []
                 (concat (map (\<lambda>q. replicate (nat (solver_grid_points sa div int ns)) (real q))
                    [0..<ns])),
               Intercomm_Allgather Velocity_Z []
                 (concat (map (\<lambda>q. replicate (nat (solver_grid_points sa div int ns)) (real q))
                    [0..<ns]))]) @
            [Finalize],
          exit_status = 0\<rparr>"
proof -
  have p: "tracker_particles ta \<le> 0 \<or> tracker_particles ta mod int nt = 0"
    using assms(7) by simp
  have i: "tracker_iterations ta \<le> solver_iterations sa" using assms(9) by simp
  have "configure_tracker (t - ns) nt (tracker_particles ta) = Inr 0"
    using assms(7) by (simp add: configure_tracker_def)
  with run_tracker_coupled [OF assms(1,2,3,4,5,6) p assms(8) i]
  show ?thesis by (intro conjI)
qed

theorem nonpositive_particles_are_not_counted_witness:
  "configure_tracker 1 2 0 = Inr 0 \<and>
   run (coupled_universe 1
       \<lparr>solver_argv0 = ''solver.py'', solver_iterations = 1, solver_grid_points = 2\<rparr> 2
       \<lparr>tracker_argv0 = ''tracker.py'', tracker_iterations = 1, tracker_grid_points = 2,
        tracker_particles = 0\<rparr>) 2 =
     Inr \<lparr>events =
            [Partition_by_string ''tracker.py'', Comm_Compare UNEQUAL, World_bcast 0 0 0,
             Intercomm_created 0 0, Intercomm_broadcast 0 1 0 True None,
             Intercomm_Allgather Velocity_X [] [0, 0],
             Intercomm_Allgather Velocity_Y [] [0, 0],
             Intercomm_Allgather Velocity_Z [] [0, 0],
             Finalize],
          exit_status = 0\<rparr>"
proof -
  let ?sa = "\<lparr>solver_argv0 = ''solver.py'', solver_iterations = 1, solver_grid_points = 2\<rparr>"
  let ?ta = "\<lparr>tracker_argv0 = ''tracker.py'', tracker_iterations = 1, tracker_grid_points = 2,
        tracker_particles = 0\<rparr>"
  have l: "solver_argv0 ?sa \<noteq> tracker_argv0 ?ta" by simp
  have n: "(0::nat) < 1" "(1::nat) \<le> 2" "(2::nat) < 1 + 2" by simp_all
  have g: "0 < solver_grid_points ?sa" "solver_grid_points ?sa mod int 1 = 0"
    "tracker_particles ?ta \<le> 0"
    "tracker_grid_points ?ta = solver_grid_points ?sa"
    "tracker_iterations ?ta = solver_iterations ?sa"
    by simp_all
  have k: "nat (solver_grid_points ?sa div int 1) = Suc (Suc 0)" by simp
  have i: "nat (tracker_iterations ?ta) = Suc 0" by simp
  from nonpositive_particles_are_not_counted [OF l n g]
  show ?thesis unfolding k i by simp
qed

end
